theory Spec2Isabelle
  imports Main
begin

section \<open>The persisted state (database/schema.sql)\<close>

text \<open>
  The three tables of \<^verbatim>\<open>schema.sql\<close> are lists of rows, in heap order. Column names are
  those of the schema; the columns \<^verbatim>\<open>id\<close>, \<^verbatim>\<open>name\<close>, \<^verbatim>\<open>created_at\<close> and \<^verbatim>\<open>updated_at\<close>, which
  several tables share, carry the table's initial as a prefix. Timestamps of the store
  (\<^verbatim>\<open>CURRENT_TIMESTAMP\<close>, \<^verbatim>\<open>NOW()\<close>) are integers counting microseconds; a \<^verbatim>\<open>DATE\<close> is a
  day number and a \<^verbatim>\<open>TIME\<close> the milliseconds after midnight.
\<close>

datatype booking_status = PENDING | CONFIRMED | FAILED | CANCELLED

record doctor =
  d_id :: int
  d_name :: string
  specialization :: string

record slot =
  s_id :: int
  doctor_id :: int
  slot_date :: int
  slot_time :: int
  duration_minutes :: int
  is_available :: bool
  s_created_at :: int
  s_updated_at :: int

record booking =
  b_id :: int
  slot_id :: int
  patient_name :: string
  patient_email :: string
  patient_phone :: "string option"
  status :: booking_status
  booking_time :: int
  confirmed_at :: "int option"
  failed_at :: "int option"
  failure_reason :: "string option"
  version :: int
  b_created_at :: int
  b_updated_at :: int

text \<open>
  \<^verbatim>\<open>bookings.id\<close> is \<^verbatim>\<open>SERIAL\<close>: the store keeps a sequence, here the next value it hands
  out. A sequence is not transactional: a rolled-back \<^verbatim>\<open>INSERT\<close> has consumed its value.
\<close>

record db =
  doctors :: "doctor list"
  appointment_slots :: "slot list"
  bookings :: "booking list"
  bookings_id_seq :: int

section \<open>The store as seen through one client connection\<close>

text \<open>
  A JavaScript error carries a message and, when the store raised it, an SQLSTATE code.
  \<open>Error msg\<close> is \<^verbatim>\<open>new Error(msg)\<close>, which has no code.
\<close>

record js_error =
  message :: string
  code :: "string option"

definition Error :: "string \<Rightarrow> js_error" where
  "Error msg = \<lparr>message = msg, code = None\<rparr>"

text \<open>
  Every \<^verbatim>\<open>await client.query(...)\<close> and \<^verbatim>\<open>pool.connect()\<close> is a call into the store that may
  reject (connectivity, serialization failure \<^verbatim>\<open>40001\<close>, ...). Which calls reject, and with
  what error, is an input of each operation: a schedule from the statement to the error the
  store raises there. A rejected statement has no effect.
\<close>

datatype stmt =
    Connect | Begin | Commit | Rollback
  | LockSlot | InsertBooking | MarkSlotUnavailable | ConfirmBooking | FetchBooking
  | LockBooking | CancelBookingRow | ReleaseSlot
  | ExpireBookings | ReleaseSlots

type_synonym store_faults = "stmt \<Rightarrow> js_error option"

definition no_faults :: store_faults where
  "no_faults = (\<lambda>q. None)"

text \<open>
  A connection holds the committed database and, between \<^verbatim>\<open>BEGIN\<close> and the transaction's
  end, the working copy that the transaction reads and writes. \<^verbatim>\<open>COMMIT\<close> makes the working
  copy the committed database; \<^verbatim>\<open>ROLLBACK\<close> drops it, keeping only the sequence's advance;
  both do nothing when no transaction is open.
\<close>

record session =
  durable :: db
  txn :: "db option"

definition connect :: "db \<Rightarrow> session" where
  "connect s = \<lparr>durable = s, txn = None\<rparr>"

definition BEGIN :: "session \<Rightarrow> session" where
  "BEGIN c = c\<lparr>txn := Some (durable c)\<rparr>"

definition COMMIT :: "session \<Rightarrow> session" where
  "COMMIT c = (case txn c of None \<Rightarrow> c | Some w \<Rightarrow> \<lparr>durable = w, txn = None\<rparr>)"

definition ROLLBACK :: "session \<Rightarrow> session" where
  "ROLLBACK c = (case txn c of None \<Rightarrow> c
     | Some w \<Rightarrow> \<lparr>durable = (durable c)\<lparr>bookings_id_seq := bookings_id_seq w\<rparr>, txn = None\<rparr>)"

definition view :: "session \<Rightarrow> db" where
  "view c = (case txn c of None \<Rightarrow> durable c | Some w \<Rightarrow> w)"

definition exec :: "(db \<Rightarrow> db) \<Rightarrow> session \<Rightarrow> session" where
  "exec f c = (case txn c of None \<Rightarrow> c\<lparr>durable := f (durable c)\<rparr>
     | Some w \<Rightarrow> c\<lparr>txn := Some (f w)\<rparr>)"

section \<open>The SQL statements of services/bookingService.js\<close>

text \<open>\<^verbatim>\<open>SELECT ... FROM appointment_slots WHERE id = $1 FOR UPDATE\<close>\<close>

definition select_slot :: "int \<Rightarrow> db \<Rightarrow> slot list" where
  "select_slot slotId w = filter (\<lambda>r. s_id r = slotId) (appointment_slots w)"

text \<open>
  \<^verbatim>\<open>INSERT INTO bookings (slot_id, patient_name, patient_email, patient_phone, status)
  VALUES ($1, $2, $3, $4, 'PENDING') RETURNING *\<close>: the other columns take the schema's
  defaults. The store rejects a value longer than its \<^verbatim>\<open>VARCHAR\<close> column (SQLSTATE 22001)
  and a row whose \<^verbatim>\<open>id\<close> is already in the table (\<^verbatim>\<open>PRIMARY KEY\<close>, SQLSTATE 23505).
\<close>

definition new_booking :: "int \<Rightarrow> int \<Rightarrow> int \<Rightarrow> string \<Rightarrow> string \<Rightarrow> string option \<Rightarrow> booking" where
  "new_booking now newId slotId patientName patientEmail patientPhone =
     \<lparr>b_id = newId, slot_id = slotId, patient_name = patientName,
      patient_email = patientEmail, patient_phone = patientPhone, status = PENDING,
      booking_time = now, confirmed_at = None, failed_at = None, failure_reason = None,
      version = 1, b_created_at = now, b_updated_at = now\<rparr>"

definition too_long :: "string \<Rightarrow> string \<Rightarrow> string option \<Rightarrow> bool" where
  "too_long patientName patientEmail patientPhone =
     (255 < length patientName \<or> 255 < length patientEmail \<or>
      (case patientPhone of None \<Rightarrow> False | Some p \<Rightarrow> 20 < length p))"

definition insert_booking ::
  "int \<Rightarrow> int \<Rightarrow> string \<Rightarrow> string \<Rightarrow> string option \<Rightarrow> db \<Rightarrow> (js_error + booking) \<times> db" where
  "insert_booking now slotId patientName patientEmail patientPhone w =
     (let newId = bookings_id_seq w;
          w' = w\<lparr>bookings_id_seq := newId + 1\<rparr>;
          row = new_booking now newId slotId patientName patientEmail patientPhone
      in if too_long patientName patientEmail patientPhone
         then (Inl \<lparr>message = ''value too long for type character varying'',
                    code = Some ''22001''\<rparr>, w')
         else if newId \<in> b_id ` set (bookings w)
         then (Inl \<lparr>message = ''duplicate key value violates unique constraint'',
                    code = Some ''23505''\<rparr>, w')
         else (Inr row, w'\<lparr>bookings := bookings w @ [row]\<rparr>))"

text \<open>
  \<^verbatim>\<open>UPDATE appointment_slots SET is_available = v WHERE ...\<close>; the schema's trigger stamps
  \<^verbatim>\<open>updated_at\<close> on every updated row.
\<close>

definition update_slots :: "int \<Rightarrow> bool \<Rightarrow> (slot \<Rightarrow> bool) \<Rightarrow> db \<Rightarrow> db" where
  "update_slots now v P w =
     w\<lparr>appointment_slots :=
         map (\<lambda>r. if P r then r\<lparr>is_available := v, s_updated_at := now\<rparr> else r)
           (appointment_slots w)\<rparr>"

text \<open>\<^verbatim>\<open>UPDATE bookings SET status = 'CONFIRMED', confirmed_at = CURRENT_TIMESTAMP WHERE id = $1\<close>\<close>

definition confirm_booking :: "int \<Rightarrow> int \<Rightarrow> db \<Rightarrow> db" where
  "confirm_booking now bookingId w =
     w\<lparr>bookings :=
         map (\<lambda>b. if b_id b = bookingId
                   then b\<lparr>status := CONFIRMED, confirmed_at := Some now, b_updated_at := now\<rparr>
                   else b)
           (bookings w)\<rparr>"

text \<open>\<^verbatim>\<open>SELECT * FROM bookings WHERE id = $1 FOR UPDATE\<close>\<close>

definition select_booking :: "int \<Rightarrow> db \<Rightarrow> booking list" where
  "select_booking bookingId w = filter (\<lambda>b. b_id b = bookingId) (bookings w)"

text \<open>\<^verbatim>\<open>UPDATE bookings SET status = 'CANCELLED', updated_at = CURRENT_TIMESTAMP WHERE id = $1\<close>\<close>

definition cancel_booking_row :: "int \<Rightarrow> int \<Rightarrow> db \<Rightarrow> db" where
  "cancel_booking_row now bookingId w =
     w\<lparr>bookings :=
         map (\<lambda>b. if b_id b = bookingId then b\<lparr>status := CANCELLED, b_updated_at := now\<rparr> else b)
           (bookings w)\<rparr>"

text \<open>
  Decimal rendering of a number inside a template literal (\<^verbatim>\<open>${timeoutMinutes}\<close>).
\<close>

fun toString_nat :: "nat \<Rightarrow> string" where
  "toString_nat n =
     (if n < 10 then [''0123456789'' ! n]
      else toString_nat (n div 10) @ [''0123456789'' ! (n mod 10)])"

declare toString_nat.simps [simp del]

definition toString_int :: "int \<Rightarrow> string" where
  "toString_int i = (if i < 0 then ''-'' @ toString_nat (nat (- i)) else toString_nat (nat i))"

text \<open>
  The sweep's \<^verbatim>\<open>UPDATE bookings SET status = 'FAILED', failed_at = CURRENT_TIMESTAMP,
  failure_reason = '...' WHERE status = 'PENDING' AND booking_time < NOW() - INTERVAL
  '${timeoutMinutes} minutes' RETURNING slot_id\<close>. One minute is 60000000 microseconds.
\<close>

definition timeout_reason :: "int \<Rightarrow> string" where
  "timeout_reason timeoutMinutes =
     ''Booking timeout - not confirmed within '' @ toString_int timeoutMinutes @ '' minutes''"

definition stale :: "int \<Rightarrow> int \<Rightarrow> booking \<Rightarrow> bool" where
  "stale now timeoutMinutes b \<longleftrightarrow>
     status b = PENDING \<and> booking_time b < now - timeoutMinutes * 60000000"

definition expire_bookings :: "int \<Rightarrow> int \<Rightarrow> db \<Rightarrow> int list \<times> db" where
  "expire_bookings now timeoutMinutes w =
     (map slot_id (filter (stale now timeoutMinutes) (bookings w)),
      w\<lparr>bookings :=
          map (\<lambda>b. if stale now timeoutMinutes b
                    then b\<lparr>status := FAILED, failed_at := Some now,
                           failure_reason := Some (timeout_reason timeoutMinutes),
                           b_updated_at := now\<rparr>
                    else b)
            (bookings w)\<rparr>)"

section \<open>BookingService\<close>

subsection \<open>getBookingById\<close>

text \<open>
  The join of a booking with its slot and the slot's doctor; \<^verbatim>\<open>result.rows[0]\<close> is
  \<^verbatim>\<open>undefined\<close> (here \<open>None\<close>) when the join is empty.
\<close>

record booking_details =
  b_row :: booking
  j_slot_date :: int
  j_slot_time :: int
  j_duration_minutes :: int
  doctor_name :: string
  j_specialization :: string

definition getBookingById :: "db \<Rightarrow> int \<Rightarrow> booking_details option" where
  "getBookingById s bookingId =
     (case concat (map (\<lambda>b. concat (map (\<lambda>r. map (\<lambda>d.
              \<lparr>b_row = b, j_slot_date = slot_date r, j_slot_time = slot_time r,
               j_duration_minutes = duration_minutes r, doctor_name = d_name d,
               j_specialization = specialization d\<rparr>)
            (filter (\<lambda>d. d_id d = doctor_id r) (doctors s)))
          (filter (\<lambda>r. s_id r = slot_id b) (appointment_slots s))))
        (filter (\<lambda>b. b_id b = bookingId) (bookings s)))
      of [] \<Rightarrow> None | row # rest \<Rightarrow> Some row)"

subsection \<open>createBooking\<close>

text \<open>
  \<^verbatim>\<open>new Date(`${slot.slot_date.toISOString().split('T')[0]}T${slot.slot_time}`)\<close>, in
  milliseconds since the epoch, for a process whose time zone is UTC.
\<close>

definition slotDateTime :: "slot \<Rightarrow> int" where
  "slotDateTime r = slot_date r * 86400000 + slot_time r"

text \<open>
  The body of the \<^verbatim>\<open>try\<close> block. \<open>clock\<close> is the value of \<^verbatim>\<open>new Date()\<close> (milliseconds) and
  \<open>now\<close> the store's \<^verbatim>\<open>CURRENT_TIMESTAMP\<close>. The result is the value returned or the error
  thrown, with the connection as the block leaves it.
\<close>

definition createBooking_try ::
  "store_faults \<Rightarrow> int \<Rightarrow> int \<Rightarrow> int \<Rightarrow> string \<Rightarrow> string \<Rightarrow> string option \<Rightarrow> session
     \<Rightarrow> (js_error + booking_details option) \<times> session" where
  "createBooking_try fl clock now slotId patientName patientEmail patientPhone c0 =
     (case fl Begin of Some e \<Rightarrow> (Inl e, c0) | None \<Rightarrow>
       (let c1 = BEGIN c0 in
        (case fl LockSlot of Some e \<Rightarrow> (Inl e, c1) | None \<Rightarrow>
          (case select_slot slotId (view c1) of
             [] \<Rightarrow> (Inl (Error ''Slot not found''), c1)
           | slot # rest \<Rightarrow>
              (if \<not> is_available slot
               then (Inl (Error ''Slot is no longer available''), c1)
               else if slotDateTime slot < clock
               then (Inl (Error ''Cannot book past appointments''), c1)
               else
                (case fl InsertBooking of Some e \<Rightarrow> (Inl e, c1) | None \<Rightarrow>
                  (case insert_booking now slotId patientName patientEmail patientPhone
                          (view c1) of
                     (Inl e, w2) \<Rightarrow> (Inl e, c1\<lparr>txn := Some w2\<rparr>)
                   | (Inr booking, w2) \<Rightarrow>
                      (let c2 = c1\<lparr>txn := Some w2\<rparr> in
                       (case fl MarkSlotUnavailable of Some e \<Rightarrow> (Inl e, c2) | None \<Rightarrow>
                         (let c3 = exec (update_slots now False (\<lambda>r. s_id r = slotId)) c2 in
                          (case fl ConfirmBooking of Some e \<Rightarrow> (Inl e, c3) | None \<Rightarrow>
                            (let c4 = exec (confirm_booking now (b_id booking)) c3 in
                             (case fl Commit of Some e \<Rightarrow> (Inl e, c4) | None \<Rightarrow>
                               (let c5 = COMMIT c4 in
                                (case fl FetchBooking of Some e \<Rightarrow> (Inl e, c5) | None \<Rightarrow>
                                  (Inr (getBookingById (durable c5) (b_id booking)),
                                   c5))))))))))))))))"

text \<open>
  The \<^verbatim>\<open>catch\<close> block of \<^verbatim>\<open>createBooking\<close>: \<^verbatim>\<open>ROLLBACK\<close>, then the serialization failure is
  replaced by a retry message and every other error is thrown again. When the \<^verbatim>\<open>ROLLBACK\<close>
  itself is rejected its error is the one thrown; the store has dropped the transaction
  with the connection.
\<close>

definition createBooking_catch :: "store_faults \<Rightarrow> js_error \<Rightarrow> session \<Rightarrow> js_error \<times> session" where
  "createBooking_catch fl error c =
     (case fl Rollback of Some e \<Rightarrow> (e, ROLLBACK c)
      | None \<Rightarrow>
         (if code error = Some ''40001''
          then (Error ''Booking conflict - please try again'', ROLLBACK c)
          else (error, ROLLBACK c)))"

definition createBooking ::
  "store_faults \<Rightarrow> int \<Rightarrow> int \<Rightarrow> int \<Rightarrow> string \<Rightarrow> string \<Rightarrow> string option \<Rightarrow> db
     \<Rightarrow> (js_error + booking_details option) \<times> db" where
  "createBooking fl clock now slotId patientName patientEmail patientPhone s =
     (case fl Connect of Some e \<Rightarrow> (Inl e, s) | None \<Rightarrow>
       (case createBooking_try fl clock now slotId patientName patientEmail patientPhone
               (connect s) of
          (Inr finalBooking, c) \<Rightarrow> (Inr finalBooking, durable c)
        | (Inl error, c) \<Rightarrow>
           (case createBooking_catch fl error c of (e, c') \<Rightarrow> (Inl e, durable c'))))"

subsection \<open>cancelBooking\<close>

record cancel_result =
  success :: bool
  cancel_message :: string

definition cancelBooking_try ::
  "store_faults \<Rightarrow> int \<Rightarrow> int \<Rightarrow> session \<Rightarrow> (js_error + cancel_result) \<times> session" where
  "cancelBooking_try fl now bookingId c0 =
     (case fl Begin of Some e \<Rightarrow> (Inl e, c0) | None \<Rightarrow>
       (let c1 = BEGIN c0 in
        (case fl LockBooking of Some e \<Rightarrow> (Inl e, c1) | None \<Rightarrow>
          (case select_booking bookingId (view c1) of
             [] \<Rightarrow> (Inl (Error ''Booking not found''), c1)
           | booking # rest \<Rightarrow>
              (if status booking = CANCELLED
               then (Inl (Error ''Booking already cancelled''), c1)
               else
                (case fl CancelBookingRow of Some e \<Rightarrow> (Inl e, c1) | None \<Rightarrow>
                  (let c2 = exec (cancel_booking_row now bookingId) c1 in
                   (case fl ReleaseSlot of Some e \<Rightarrow> (Inl e, c2) | None \<Rightarrow>
                     (let c3 = exec (update_slots now True (\<lambda>r. s_id r = slot_id booking)) c2
                      in
                      (case fl Commit of Some e \<Rightarrow> (Inl e, c3) | None \<Rightarrow>
                        (let c4 = COMMIT c3 in
                         (Inr \<lparr>success = True,
                               cancel_message = ''Booking cancelled successfully''\<rparr>,
                          c4))))))))))))"

text \<open>The \<^verbatim>\<open>catch\<close> block of \<^verbatim>\<open>cancelBooking\<close> and of \<^verbatim>\<open>expirePendingBookings\<close>.\<close>

definition rollback_catch :: "store_faults \<Rightarrow> js_error \<Rightarrow> session \<Rightarrow> js_error \<times> session" where
  "rollback_catch fl error c =
     (case fl Rollback of Some e \<Rightarrow> (e, ROLLBACK c) | None \<Rightarrow> (error, ROLLBACK c))"

definition cancelBooking ::
  "store_faults \<Rightarrow> int \<Rightarrow> int \<Rightarrow> db \<Rightarrow> (js_error + cancel_result) \<times> db" where
  "cancelBooking fl now bookingId s =
     (case fl Connect of Some e \<Rightarrow> (Inl e, s) | None \<Rightarrow>
       (case cancelBooking_try fl now bookingId (connect s) of
          (Inr r, c) \<Rightarrow> (Inr r, durable c)
        | (Inl error, c) \<Rightarrow>
           (case rollback_catch fl error c of (e, c') \<Rightarrow> (Inl e, durable c'))))"

subsection \<open>expirePendingBookings\<close>

record expire_result =
  expired :: nat
  expire_message :: string

text \<open>
  \<^verbatim>\<open>if (expiredBookings.rows.length > 0)\<close>: the slots of the expired rows are released by
  \<^verbatim>\<open>UPDATE appointment_slots SET is_available = TRUE WHERE id = ANY($1)\<close>.
\<close>

definition release_expired ::
  "store_faults \<Rightarrow> int \<Rightarrow> int list \<Rightarrow> session \<Rightarrow> js_error + session" where
  "release_expired fl now slotIds c =
     (if 0 < length slotIds
      then (case fl ReleaseSlots of Some e \<Rightarrow> Inl e
            | None \<Rightarrow> Inr (exec (update_slots now True (\<lambda>r. s_id r \<in> set slotIds)) c))
      else Inr c)"

definition expirePendingBookings_try ::
  "store_faults \<Rightarrow> int \<Rightarrow> int \<Rightarrow> session \<Rightarrow> (js_error + expire_result) \<times> session" where
  "expirePendingBookings_try fl now timeoutMinutes c0 =
     (case fl Begin of Some e \<Rightarrow> (Inl e, c0) | None \<Rightarrow>
       (let c1 = BEGIN c0 in
        (case fl ExpireBookings of Some e \<Rightarrow> (Inl e, c1) | None \<Rightarrow>
          (case expire_bookings now timeoutMinutes (view c1) of
             (expiredRows, w2) \<Rightarrow>
              (let c2 = c1\<lparr>txn := Some w2\<rparr> in
               (case release_expired fl now expiredRows c2 of
                  Inl e \<Rightarrow> (Inl e, c2)
                | Inr c3 \<Rightarrow>
                   (case fl Commit of Some e \<Rightarrow> (Inl e, c3) | None \<Rightarrow>
                     (let c4 = COMMIT c3 in
                      (Inr \<lparr>expired = length expiredRows,
                            expire_message =
                              ''Expired '' @ toString_nat (length expiredRows) @
                              '' pending bookings''\<rparr>,
                       c4)))))))))"

definition expirePendingBookings ::
  "store_faults \<Rightarrow> int \<Rightarrow> int \<Rightarrow> db \<Rightarrow> (js_error + expire_result) \<times> db" where
  "expirePendingBookings fl now timeoutMinutes s =
     (case fl Connect of Some e \<Rightarrow> (Inl e, s) | None \<Rightarrow>
       (case expirePendingBookings_try fl now timeoutMinutes (connect s) of
          (Inr r, c) \<Rightarrow> (Inr r, durable c)
        | (Inl error, c) \<Rightarrow>
           (case rollback_catch fl error c of (e, c') \<Rightarrow> (Inl e, durable c'))))"

section \<open>Notions used in the statements\<close>

text \<open>
  The three writes that \<^verbatim>\<open>createBooking\<close> issues between \<^verbatim>\<open>BEGIN\<close> and \<^verbatim>\<open>COMMIT\<close>, in the
  order of the source: the \<^verbatim>\<open>INSERT\<close>, the slot's \<^verbatim>\<open>UPDATE\<close>, the confirming \<^verbatim>\<open>UPDATE\<close> of
  the row whose id the sequence has just handed out.
\<close>

definition booked :: "int \<Rightarrow> int \<Rightarrow> string \<Rightarrow> string \<Rightarrow> string option \<Rightarrow> db \<Rightarrow> db" where
  "booked now slotId patientName patientEmail patientPhone s =
     confirm_booking now (bookings_id_seq s)
       (update_slots now False (\<lambda>r. s_id r = slotId)
          (snd (insert_booking now slotId patientName patientEmail patientPhone s)))"

text \<open>The conditions under which \<^verbatim>\<open>createBooking\<close> reaches its \<^verbatim>\<open>COMMIT\<close> when the store
  rejects nothing.\<close>

definition admitted :: "int \<Rightarrow> int \<Rightarrow> string \<Rightarrow> string \<Rightarrow> string option \<Rightarrow> db \<Rightarrow> bool" where
  "admitted clock slotId patientName patientEmail patientPhone s \<longleftrightarrow>
     (case select_slot slotId s of [] \<Rightarrow> False
      | slot # rest \<Rightarrow> is_available slot \<and> \<not> slotDateTime slot < clock) \<and>
     \<not> too_long patientName patientEmail patientPhone \<and>
     bookings_id_seq s \<notin> b_id ` set (bookings s)"

text \<open>The two writes of \<^verbatim>\<open>cancelBooking\<close>, for the row \<open>booking\<close> that its \<^verbatim>\<open>SELECT\<close> returned.\<close>

definition cancelled :: "int \<Rightarrow> int \<Rightarrow> booking \<Rightarrow> db \<Rightarrow> db" where
  "cancelled now bookingId booking s =
     update_slots now True (\<lambda>r. s_id r = slot_id booking) (cancel_booking_row now bookingId s)"

text \<open>The writes of \<^verbatim>\<open>expirePendingBookings\<close>.\<close>

definition swept :: "int \<Rightarrow> int \<Rightarrow> db \<Rightarrow> db" where
  "swept now timeoutMinutes s =
     (case expire_bookings now timeoutMinutes s of
        (expiredRows, w) \<Rightarrow>
          if 0 < length expiredRows
          then update_slots now True (\<lambda>r. s_id r \<in> set expiredRows) w
          else w)"



text \<open>
  One call of one of the three operations, with any arguments, at any time and under any
  behaviour of the store.
\<close>

inductive op_step :: "db \<Rightarrow> db \<Rightarrow> bool" where
  create: "op_step s (snd (createBooking fl clock now slotId patientName patientEmail patientPhone s))"
| cancel: "op_step s (snd (cancelBooking fl now bookingId s))"
| sweep: "op_step s (snd (expirePendingBookings fl now timeoutMinutes s))"



text \<open>
  The status edges as the specification lists them, and the edges the operations are
  found to take.
\<close>

fun spec_edge :: "booking_status \<Rightarrow> booking_status \<Rightarrow> bool" where
  "spec_edge PENDING CONFIRMED = True"
| "spec_edge PENDING FAILED = True"
| "spec_edge CONFIRMED CANCELLED = True"
| "spec_edge PENDING CANCELLED = True"
| "spec_edge a b = False"

definition taken_edge :: "booking_status \<Rightarrow> booking_status \<Rightarrow> bool" where
  "taken_edge a b \<longleftrightarrow> spec_edge a b \<or> (a = FAILED \<and> b = CANCELLED)"


section \<open>Example data\<close>

text \<open>
  One doctor with two slots on day 20000, at 10:00 and 10:30; 10:00 on that day is the
  instant 1728036000000.
\<close>

definition clinic :: db where
  "clinic =
     \<lparr>doctors = [\<lparr>d_id = 1, d_name = ''Dr. Sarah Johnson'', specialization = ''Cardiologist''\<rparr>],
      appointment_slots =
        [\<lparr>s_id = 1, doctor_id = 1, slot_date = 20000, slot_time = 36000000,
          duration_minutes = 30, is_available = True, s_created_at = 0, s_updated_at = 0\<rparr>,
         \<lparr>s_id = 2, doctor_id = 1, slot_date = 20000, slot_time = 37800000,
          duration_minutes = 30, is_available = True, s_created_at = 0, s_updated_at = 0\<rparr>],
      bookings = [],
      bookings_id_seq = 1\<rparr>"

text \<open>
  The pool gives no second connection while the booking's own client is still checked out.
\<close>

definition pool_timeout :: js_error where
  "pool_timeout = \<lparr>message = ''timeout exceeded when trying to connect'', code = None\<rparr>"

definition fetch_fails :: store_faults where
  "fetch_fails = no_faults(FetchBooking := Some pool_timeout)"

text \<open>Alice books slot 1 before its time, then cancels.\<close>

definition alice_booked :: db where
  "alice_booked =
     snd (createBooking no_faults 0 5 1 ''Alice'' ''alice@example.com'' None clinic)"


text \<open>
  A database holding two rows that are still \<^verbatim>\<open>PENDING\<close>, the status the schema gives a row by
  default: Alice's for slot 1, made at time 0, and Bob's for slot 2, made 170 seconds later.
  The sweep runs at 180 seconds with a timeout of 2 minutes; Carol then books slot 1.
\<close>

definition stuck_clinic :: db where
  "stuck_clinic =
     clinic\<lparr>appointment_slots := map (\<lambda>r. r\<lparr>is_available := False\<rparr>) (appointment_slots clinic),
            bookings := [new_booking 0 1 1 ''Alice'' ''alice@example.com'' None,
                         new_booking 170000000 2 2 ''Bob'' ''bob@example.com'' None],
            bookings_id_seq := 3\<rparr>"

definition alice_failed :: db where
  "alice_failed = snd (expirePendingBookings no_faults 180000000 2 stuck_clinic)"

definition carol_booked :: db where
  "carol_booked =
     snd (createBooking no_faults 0 200000000 1 ''Carol'' ''carol@example.com'' None alice_failed)"




section \<open>What each operation does to the committed database\<close>

lemma view_BEGIN_connect [simp]: "view (BEGIN (connect s)) = s"
  by (simp add: view_def BEGIN_def connect_def)

lemma durable_BEGIN_connect [simp]: "durable (BEGIN (connect s)) = s"
  by (simp add: BEGIN_def connect_def)

lemma durable_txn_update [simp]: "durable (c\<lparr>txn := t\<rparr>) = durable c"
  by simp

lemma exec_txn [simp]: "exec f (c\<lparr>txn := Some w\<rparr>) = c\<lparr>txn := Some (f w)\<rparr>"
  by (simp add: exec_def)

lemma COMMIT_txn [simp]: "COMMIT (c\<lparr>txn := Some w\<rparr>) = \<lparr>durable = w, txn = None\<rparr>"
  by (simp add: COMMIT_def)

lemma BEGIN_connect: "BEGIN (connect s) = \<lparr>durable = s, txn = Some s\<rparr>"
  by (simp add: BEGIN_def connect_def)

lemma view_open [simp]: "view \<lparr>durable = d, txn = Some w\<rparr> = w"
  by (simp add: view_def)

lemma exec_open [simp]: "exec f \<lparr>durable = d, txn = Some w\<rparr> = \<lparr>durable = d, txn = Some (f w)\<rparr>"
  by (simp add: exec_def)

lemma COMMIT_open [simp]: "COMMIT \<lparr>durable = d, txn = Some w\<rparr> = \<lparr>durable = w, txn = None\<rparr>"
  by (simp add: COMMIT_def)

lemma insert_booking_cases:
  "insert_booking now slotId pn pe pp w = (r, w') \<Longrightarrow>
     (isl r \<and> (too_long pn pe pp \<or> bookings_id_seq w \<in> b_id ` set (bookings w)))
   \<or> (\<not> too_long pn pe pp \<and> bookings_id_seq w \<notin> b_id ` set (bookings w) \<and>
       r = Inr (new_booking now (bookings_id_seq w) slotId pn pe pp))"
  unfolding insert_booking_def Let_def
  by (cases "too_long pn pe pp"; cases "bookings_id_seq w \<in> b_id ` set (bookings w)"; auto)

lemma createBooking_try_outcome:
  assumes "createBooking_try fl clock now slotId pn pe pp (connect s) = (r, c)"
  shows "(isl r \<and> durable c = s)
       \<or> (admitted clock slotId pn pe pp s \<and> txn c = None \<and>
           durable c = booked now slotId pn pe pp s \<and>
           (case fl FetchBooking of
              None \<Rightarrow> r = Inr (getBookingById (durable c) (bookings_id_seq s))
            | Some e \<Rightarrow> r = Inl e))"
proof (cases "fl Begin")
  case (Some e)
  then show ?thesis using assms by (auto simp: createBooking_try_def connect_def)
next
  case b: None
  show ?thesis
  proof (cases "fl LockSlot")
    case (Some e)
    then show ?thesis using assms b by (auto simp: createBooking_try_def Let_def)
  next
    case l: None
    show ?thesis
    proof (cases "select_slot slotId s")
      case Nil
      then show ?thesis using assms b l by (auto simp: createBooking_try_def Let_def)
    next
      case (Cons slot rest)
      show ?thesis
      proof (cases "is_available slot \<and> \<not> slotDateTime slot < clock \<and> fl InsertBooking = None")
        case False
        then show ?thesis using assms b l Cons
          by (auto simp: createBooking_try_def Let_def split: if_splits option.splits)
      next
        case ok: True
        obtain ri w2 where ins: "insert_booking now slotId pn pe pp s = (ri, w2)"
          by (cases "insert_booking now slotId pn pe pp s")
        show ?thesis
        proof (cases ri)
          case (Inl e)
          then show ?thesis using assms b l Cons ok ins
            by (auto simp: createBooking_try_def Let_def)
        next
          case (Inr booking)
          from insert_booking_cases[OF ins] Inr
          have fresh: "\<not> too_long pn pe pp" "bookings_id_seq s \<notin> b_id ` set (bookings s)"
            and bk: "booking = new_booking now (bookings_id_seq s) slotId pn pe pp"
            by auto
          have adm: "admitted clock slotId pn pe pp s"
            using Cons ok fresh by (simp add: admitted_def)
          have bid: "b_id booking = bookings_id_seq s" using bk by (simp add: new_booking_def)
          have w2: "w2 = snd (insert_booking now slotId pn pe pp s)" using ins by simp
          show ?thesis
            using assms b l Cons ok ins Inr adm bid
            by (cases "fl MarkSlotUnavailable"; cases "fl ConfirmBooking"; cases "fl Commit";
                cases "fl FetchBooking";
                auto simp: createBooking_try_def Let_def booked_def)
        qed
      qed
    qed
  qed
qed

lemma ROLLBACK_tables:
  "doctors (durable (ROLLBACK c)) = doctors (durable c)"
  "appointment_slots (durable (ROLLBACK c)) = appointment_slots (durable c)"
  "bookings (durable (ROLLBACK c)) = bookings (durable c)"
  by (simp_all add: ROLLBACK_def split: option.split)

lemma ROLLBACK_closed: "txn c = None \<Longrightarrow> ROLLBACK c = c"
  by (simp add: ROLLBACK_def)

lemma createBooking_catch_session: "snd (createBooking_catch fl error c) = ROLLBACK c"
  by (cases "fl Rollback") (simp_all add: createBooking_catch_def)

lemma rollback_catch_session: "snd (rollback_catch fl error c) = ROLLBACK c"
  by (cases "fl Rollback") (simp_all add: rollback_catch_def)

lemma createBooking_outcome:
  assumes "createBooking fl clock now slotId pn pe pp s = (r, s')"
  shows "(isl r \<and> doctors s' = doctors s \<and> appointment_slots s' = appointment_slots s
            \<and> bookings s' = bookings s)
       \<or> (admitted clock slotId pn pe pp s \<and> s' = booked now slotId pn pe pp s \<and>
           (case fl FetchBooking of
              None \<Rightarrow> r = Inr (getBookingById s' (bookings_id_seq s))
            | Some e \<Rightarrow> isl r))"
proof (cases "fl Connect")
  case (Some e)
  then show ?thesis using assms by (auto simp: createBooking_def)
next
  case None
  obtain rt c where t: "createBooking_try fl clock now slotId pn pe pp (connect s) = (rt, c)"
    by (cases "createBooking_try fl clock now slotId pn pe pp (connect s)")
  show ?thesis
  proof (cases rt)
    case (Inr v)
    then have "r = Inr v" "s' = durable c"
      using assms None t by (simp_all add: createBooking_def)
    then show ?thesis
      using createBooking_try_outcome[OF t] Inr by (auto split: option.splits)
  next
    case (Inl e)
    obtain e' c' where k: "createBooking_catch fl e c = (e', c')"
      by (cases "createBooking_catch fl e c")
    then have c': "c' = ROLLBACK c" using createBooking_catch_session[of fl e c] by simp
    have res: "r = Inl e'" "s' = durable c'"
      using assms None t Inl k by (simp_all add: createBooking_def)
    from createBooking_try_outcome[OF t] show ?thesis
    proof
      assume "isl rt \<and> durable c = s"
      then show ?thesis using res c' by (simp add: ROLLBACK_tables)
    next
      assume a: "admitted clock slotId pn pe pp s \<and> txn c = None \<and>
           durable c = booked now slotId pn pe pp s \<and>
           (case fl FetchBooking of
              None \<Rightarrow> rt = Inr (getBookingById (durable c) (bookings_id_seq s))
            | Some e \<Rightarrow> rt = Inl e)"
      then have "c' = c" using c' by (simp add: ROLLBACK_closed)
      then show ?thesis using a res Inl by (auto split: option.splits)
    qed
  qed
qed

lemma map_if_fresh:
  "k \<notin> f ` set xs \<Longrightarrow> map (\<lambda>x. if f x = k then g x else x) xs = xs"
  by (induction xs) auto

lemma booked_tables:
  assumes "\<not> too_long pn pe pp" and "bookings_id_seq s \<notin> b_id ` set (bookings s)"
  shows "doctors (booked now slotId pn pe pp s) = doctors s"
    and "appointment_slots (booked now slotId pn pe pp s) =
           map (\<lambda>r. if s_id r = slotId then r\<lparr>is_available := False, s_updated_at := now\<rparr> else r)
             (appointment_slots s)"
    and "bookings (booked now slotId pn pe pp s) =
           bookings s @ [(new_booking now (bookings_id_seq s) slotId pn pe pp)
              \<lparr>status := CONFIRMED, confirmed_at := Some now, b_updated_at := now\<rparr>]"
    and "bookings_id_seq (booked now slotId pn pe pp s) = bookings_id_seq s + 1"
  using assms
  by (simp_all add: booked_def insert_booking_def confirm_booking_def update_slots_def Let_def
        map_if_fresh new_booking_def)

lemma cancelBooking_try_outcome:
  assumes "cancelBooking_try fl now bookingId (connect s) = (r, c)"
  shows "(isl r \<and> durable c = s)
       \<or> (\<exists>booking rest. select_booking bookingId s = booking # rest \<and>
             status booking \<noteq> CANCELLED \<and> txn c = None \<and>
             durable c = cancelled now bookingId booking s \<and>
             r = Inr \<lparr>success = True, cancel_message = ''Booking cancelled successfully''\<rparr>)"
proof (cases "fl Begin")
  case (Some e)
  then show ?thesis using assms by (auto simp: cancelBooking_try_def connect_def)
next
  case b: None
  show ?thesis
  proof (cases "fl LockBooking")
    case (Some e)
    then show ?thesis using assms b by (auto simp: cancelBooking_try_def Let_def)
  next
    case l: None
    show ?thesis
    proof (cases "select_booking bookingId s")
      case Nil
      then show ?thesis using assms b l by (auto simp: cancelBooking_try_def Let_def)
    next
      case (Cons booking rest)
      show ?thesis
      proof (cases "status booking = CANCELLED")
        case True
        then show ?thesis using assms b l Cons by (auto simp: cancelBooking_try_def Let_def)
      next
        case False
        then show ?thesis
          using assms b l Cons
          by (cases "fl CancelBookingRow"; cases "fl ReleaseSlot"; cases "fl Commit";
              auto simp: cancelBooking_try_def Let_def cancelled_def BEGIN_connect)
      qed
    qed
  qed
qed

lemma cancelBooking_outcome:
  assumes "cancelBooking fl now bookingId s = (r, s')"
  shows "(isl r \<and> doctors s' = doctors s \<and> appointment_slots s' = appointment_slots s
            \<and> bookings s' = bookings s)
       \<or> (\<exists>booking rest. select_booking bookingId s = booking # rest \<and>
             status booking \<noteq> CANCELLED \<and> s' = cancelled now bookingId booking s \<and>
             r = Inr \<lparr>success = True, cancel_message = ''Booking cancelled successfully''\<rparr>)"
proof (cases "fl Connect")
  case (Some e)
  then show ?thesis using assms by (auto simp: cancelBooking_def)
next
  case None
  obtain rt c where t: "cancelBooking_try fl now bookingId (connect s) = (rt, c)"
    by (cases "cancelBooking_try fl now bookingId (connect s)")
  show ?thesis
  proof (cases rt)
    case (Inr v)
    then have "r = Inr v" "s' = durable c"
      using assms None t by (simp_all add: cancelBooking_def)
    then show ?thesis
      using cancelBooking_try_outcome[OF t] Inr by auto
  next
    case (Inl e)
    obtain e' c' where k: "rollback_catch fl e c = (e', c')"
      by (cases "rollback_catch fl e c")
    then have c': "c' = ROLLBACK c" using rollback_catch_session[of fl e c] by simp
    have res: "r = Inl e'" "s' = durable c'"
      using assms None t Inl k by (simp_all add: cancelBooking_def)
    from cancelBooking_try_outcome[OF t] Inl have "durable c = s" by auto
    then show ?thesis using res c' by (simp add: ROLLBACK_tables)
  qed
qed

lemma expirePendingBookings_try_outcome:
  assumes "expirePendingBookings_try fl now T (connect s) = (r, c)"
  shows "(isl r \<and> durable c = s)
       \<or> (txn c = None \<and> durable c = swept now T s \<and>
           r = Inr \<lparr>expired = length (filter (stale now T) (bookings s)),
                    expire_message = ''Expired '' @
                      toString_nat (length (filter (stale now T) (bookings s))) @
                      '' pending bookings''\<rparr>)"
proof (cases "fl Begin")
  case (Some e)
  then show ?thesis using assms by (auto simp: expirePendingBookings_try_def connect_def)
next
  case b: None
  show ?thesis
  proof (cases "fl ExpireBookings")
    case (Some e)
    then show ?thesis using assms b by (auto simp: expirePendingBookings_try_def Let_def)
  next
    case l: None
    obtain rows w2 where ex: "expire_bookings now T s = (rows, w2)"
      by (cases "expire_bookings now T s")
    then have rows: "rows = map slot_id (filter (stale now T) (bookings s))"
      by (auto simp: expire_bookings_def)
    show ?thesis
    proof (cases "0 < length rows")
      case True
      then show ?thesis
        using assms b l ex rows
        by (cases "fl ReleaseSlots"; cases "fl Commit";
            auto simp: expirePendingBookings_try_def release_expired_def Let_def swept_def
              BEGIN_connect)
    next
      case False
      then show ?thesis
        using assms b l ex rows
        by (cases "fl Commit";
            auto simp: expirePendingBookings_try_def release_expired_def Let_def swept_def
              BEGIN_connect)
    qed
  qed
qed

lemma expirePendingBookings_outcome:
  assumes "expirePendingBookings fl now T s = (r, s')"
  shows "(isl r \<and> doctors s' = doctors s \<and> appointment_slots s' = appointment_slots s
            \<and> bookings s' = bookings s)
       \<or> (s' = swept now T s \<and>
           r = Inr \<lparr>expired = length (filter (stale now T) (bookings s)),
                    expire_message = ''Expired '' @
                      toString_nat (length (filter (stale now T) (bookings s))) @
                      '' pending bookings''\<rparr>)"
proof (cases "fl Connect")
  case (Some e)
  then show ?thesis using assms by (auto simp: expirePendingBookings_def)
next
  case None
  obtain rt c where t: "expirePendingBookings_try fl now T (connect s) = (rt, c)"
    by (cases "expirePendingBookings_try fl now T (connect s)")
  show ?thesis
  proof (cases rt)
    case (Inr v)
    then have "r = Inr v" "s' = durable c"
      using assms None t by (simp_all add: expirePendingBookings_def)
    then show ?thesis
      using expirePendingBookings_try_outcome[OF t] Inr by auto
  next
    case (Inl e)
    obtain e' c' where k: "rollback_catch fl e c = (e', c')"
      by (cases "rollback_catch fl e c")
    then have c': "c' = ROLLBACK c" using rollback_catch_session[of fl e c] by simp
    have res: "r = Inl e'" "s' = durable c'"
      using assms None t Inl k by (simp_all add: expirePendingBookings_def)
    from expirePendingBookings_try_outcome[OF t] Inl have "durable c = s" by auto
    then show ?thesis using res c' by (simp add: ROLLBACK_tables)
  qed
qed

lemma seq_self [simp]: "s\<lparr>bookings_id_seq := bookings_id_seq s\<rparr> = s"
  by simp

lemma code_Error [simp]: "code (Error msg) = None"
  by (simp add: Error_def)

lemma createBooking_no_faults:
  "createBooking no_faults clock now slotId pn pe pp s =
     (case select_slot slotId s of
        [] \<Rightarrow> (Inl (Error ''Slot not found''), s)
      | slot # rest \<Rightarrow>
          if \<not> is_available slot then (Inl (Error ''Slot is no longer available''), s)
          else if slotDateTime slot < clock
          then (Inl (Error ''Cannot book past appointments''), s)
          else if too_long pn pe pp
          then (Inl \<lparr>message = ''value too long for type character varying'',
                     code = Some ''22001''\<rparr>,
                s\<lparr>bookings_id_seq := bookings_id_seq s + 1\<rparr>)
          else if bookings_id_seq s \<in> b_id ` set (bookings s)
          then (Inl \<lparr>message = ''duplicate key value violates unique constraint'',
                     code = Some ''23505''\<rparr>,
                s\<lparr>bookings_id_seq := bookings_id_seq s + 1\<rparr>)
          else (Inr (getBookingById (booked now slotId pn pe pp s) (bookings_id_seq s)),
                booked now slotId pn pe pp s))"
proof (cases "select_slot slotId s")
  case Nil
  then show ?thesis
    by (simp add: createBooking_def createBooking_try_def createBooking_catch_def no_faults_def
          BEGIN_connect ROLLBACK_def)
next
  case (Cons slot rest)
  show ?thesis
  proof (cases "is_available slot \<and> \<not> slotDateTime slot < clock")
    case False
    then show ?thesis using Cons
      by (auto simp: createBooking_def createBooking_try_def createBooking_catch_def no_faults_def
          BEGIN_connect ROLLBACK_def)
  next
    case True
    show ?thesis
    proof (cases "too_long pn pe pp \<or> bookings_id_seq s \<in> b_id ` set (bookings s)")
      case True
      then show ?thesis using Cons \<open>is_available slot \<and> \<not> slotDateTime slot < clock\<close>
        by (auto simp: createBooking_def createBooking_try_def createBooking_catch_def
            no_faults_def BEGIN_connect ROLLBACK_def insert_booking_def Let_def)
    next
      case False
      then show ?thesis using Cons \<open>is_available slot \<and> \<not> slotDateTime slot < clock\<close>
        by (simp add: createBooking_def createBooking_try_def createBooking_catch_def
            no_faults_def BEGIN_connect insert_booking_def Let_def booked_def new_booking_def)
    qed
  qed
qed

lemma cancelBooking_no_faults:
  "cancelBooking no_faults now bookingId s =
     (case select_booking bookingId s of
        [] \<Rightarrow> (Inl (Error ''Booking not found''), s)
      | booking # rest \<Rightarrow>
          if status booking = CANCELLED then (Inl (Error ''Booking already cancelled''), s)
          else (Inr \<lparr>success = True, cancel_message = ''Booking cancelled successfully''\<rparr>,
                cancelled now bookingId booking s))"
  by (cases "select_booking bookingId s")
     (simp_all add: cancelBooking_def cancelBooking_try_def rollback_catch_def no_faults_def
        BEGIN_connect ROLLBACK_def cancelled_def Let_def)

lemma expirePendingBookings_no_faults:
  "expirePendingBookings no_faults now T s =
     (Inr \<lparr>expired = length (filter (stale now T) (bookings s)),
           expire_message = ''Expired '' @
             toString_nat (length (filter (stale now T) (bookings s))) @ '' pending bookings''\<rparr>,
      swept now T s)"
  by (cases "filter (stale now T) (bookings s) = []")
     (simp_all add: expirePendingBookings_def expirePendingBookings_try_def rollback_catch_def
        no_faults_def BEGIN_connect release_expired_def swept_def expire_bookings_def Let_def)

lemma select_slot_clinic:
  "select_slot 1 clinic = [\<lparr>s_id = 1, doctor_id = 1, slot_date = 20000, slot_time = 36000000,
          duration_minutes = 30, is_available = True, s_created_at = 0, s_updated_at = 0\<rparr>]"
  "select_slot 7 clinic = []"
  by (simp_all add: select_slot_def clinic_def)

section \<open>createBooking: the order of the checks\<close>

text \<open>
  Claim C3 as stated asks that a slot scheduled exactly at the claim instant be rejected as a
  past slot. The source compares \<^verbatim>\<open>slotDateTime < new Date()\<close>: with the clock reading
  exactly the slot's time the booking is made and confirmed.
\<close>

theorem createBooking_at_claim_instant:
  "map slotDateTime (select_slot 1 clinic) = [1728036000000] \<and>
   fst (createBooking no_faults 1728036000000 0 1 ''Alice'' ''alice@example.com'' None clinic)
     \<noteq> Inl (Error ''Cannot book past appointments'') \<and>
   map status (bookings
     (snd (createBooking no_faults 1728036000000 0 1 ''Alice'' ''alice@example.com'' None clinic)))
     = [CONFIRMED]"
  by (simp add: createBooking_no_faults select_slot_clinic slotDateTime_def too_long_def
        booked_tables new_booking_def)
     (simp add: clinic_def)

text \<open>
  Claim C3 (amended). When the store rejects nothing, \<^verbatim>\<open>createBooking\<close> checks in this order
  and leaves the database as it found it: no slot with the id gives \<^verbatim>\<open>Slot not found\<close>;
  else a slot that is not available gives \<^verbatim>\<open>Slot is no longer available\<close>; else a slot
  whose time is strictly before the clock gives \<^verbatim>\<open>Cannot book past appointments\<close>; a slot
  whose time is the clock's reading or later is not rejected as past.
\<close>

theorem createBooking_validation_order:
  "(select_slot slotId s = [] \<longrightarrow>
      createBooking no_faults clock now slotId pn pe pp s = (Inl (Error ''Slot not found''), s)) \<and>
   (select_slot slotId s = slot # rest \<and> \<not> is_available slot \<longrightarrow>
      createBooking no_faults clock now slotId pn pe pp s =
        (Inl (Error ''Slot is no longer available''), s)) \<and>
   (select_slot slotId s = slot # rest \<and> is_available slot \<and> slotDateTime slot < clock \<longrightarrow>
      createBooking no_faults clock now slotId pn pe pp s =
        (Inl (Error ''Cannot book past appointments''), s)) \<and>
   (select_slot slotId s = slot # rest \<and> is_available slot \<and> clock \<le> slotDateTime slot \<longrightarrow>
      fst (createBooking no_faults clock now slotId pn pe pp s) \<noteq>
        Inl (Error ''Cannot book past appointments''))"
proof -
  have missing: "createBooking no_faults clock now slotId pn pe pp s =
      (Inl (Error ''Slot not found''), s)" if "select_slot slotId s = []"
    using that by (simp add: createBooking_no_faults)
  have taken: "createBooking no_faults clock now slotId pn pe pp s =
      (Inl (Error ''Slot is no longer available''), s)"
    if "select_slot slotId s = slot # rest" "\<not> is_available slot"
    using that by (simp add: createBooking_no_faults)
  have past: "createBooking no_faults clock now slotId pn pe pp s =
      (Inl (Error ''Cannot book past appointments''), s)"
    if "select_slot slotId s = slot # rest" "is_available slot" "slotDateTime slot < clock"
    using that by (simp add: createBooking_no_faults)
  have due: "fst (createBooking no_faults clock now slotId pn pe pp s) \<noteq>
      Inl (Error ''Cannot book past appointments'')"
    if "select_slot slotId s = slot # rest" "is_available slot" "clock \<le> slotDateTime slot"
    using that by (simp add: createBooking_no_faults Error_def)
  from missing taken past due show ?thesis by blast
qed

text \<open>The four cases on the example clinic: an unknown slot, a slot just booked, the clock
  one millisecond after the slot, and the clock on the slot.\<close>

theorem createBooking_validation_order_witness:
  "createBooking no_faults 0 0 7 ''Alice'' ''alice@example.com'' None clinic =
     (Inl (Error ''Slot not found''), clinic) \<and>
   createBooking no_faults 0 9 1 ''Bob'' ''bob@example.com'' None
       (booked 5 1 ''Alice'' ''alice@example.com'' None clinic) =
     (Inl (Error ''Slot is no longer available''),
      booked 5 1 ''Alice'' ''alice@example.com'' None clinic) \<and>
   createBooking no_faults 1728036000001 0 1 ''Alice'' ''alice@example.com'' None clinic =
     (Inl (Error ''Cannot book past appointments''), clinic) \<and>
   fst (createBooking no_faults 1728036000000 0 1 ''Alice'' ''alice@example.com'' None clinic) \<noteq>
     Inl (Error ''Cannot book past appointments'')"
proof -
  let ?slot1 = "\<lparr>s_id = 1, doctor_id = 1, slot_date = 20000, slot_time = 36000000,
          duration_minutes = 30, is_available = True, s_created_at = 0, s_updated_at = 0\<rparr>"
  have absent: "select_slot 7 clinic = []"
    by (simp add: select_slot_def clinic_def)
  have free: "select_slot 1 clinic = ?slot1 # []"
    by (simp add: select_slot_def clinic_def)
  have taken: "select_slot 1 (booked 5 1 ''Alice'' ''alice@example.com'' None clinic) =
      ?slot1\<lparr>is_available := False, s_updated_at := 5\<rparr> # []"
    by (simp add: select_slot_def booked_tables too_long_def clinic_def)
  have a: "createBooking no_faults 0 0 7 ''Alice'' ''alice@example.com'' None clinic =
     (Inl (Error ''Slot not found''), clinic)"
    using createBooking_validation_order[where slotId = 7 and s = clinic] absent by blast
  have b: "createBooking no_faults 0 9 1 ''Bob'' ''bob@example.com'' None
       (booked 5 1 ''Alice'' ''alice@example.com'' None clinic) =
     (Inl (Error ''Slot is no longer available''),
      booked 5 1 ''Alice'' ''alice@example.com'' None clinic)"
    using createBooking_validation_order[where slotId = 1
        and s = "booked 5 1 ''Alice'' ''alice@example.com'' None clinic"
        and slot = "?slot1\<lparr>is_available := False, s_updated_at := 5\<rparr>" and rest = "[]"]
      taken by simp
  have c: "createBooking no_faults 1728036000001 0 1 ''Alice'' ''alice@example.com'' None clinic =
     (Inl (Error ''Cannot book past appointments''), clinic)"
    using createBooking_validation_order[where slotId = 1 and s = clinic
        and slot = ?slot1 and rest = "[]" and clock = 1728036000001] free
    by (simp add: slotDateTime_def)
  have d: "fst (createBooking no_faults 1728036000000 0 1 ''Alice'' ''alice@example.com'' None clinic)
     \<noteq> Inl (Error ''Cannot book past appointments'')"
    using createBooking_validation_order[where slotId = 1 and s = clinic
        and slot = ?slot1 and rest = "[]" and clock = 1728036000000] free
    by (simp add: slotDateTime_def)
  from a b c d show ?thesis by blast
qed

section \<open>createBooking: what a successful call commits\<close>


lemma updated_slot_row:
  assumes "slot \<in> set (appointment_slots (update_slots now v P w))"
  obtains r where "r \<in> set (appointment_slots w)"
    and "slot = (if P r then r\<lparr>is_available := v, s_updated_at := now\<rparr> else r)"
proof -
  from assms have "slot \<in> (\<lambda>r. if P r then r\<lparr>is_available := v, s_updated_at := now\<rparr> else r) `
      set (appointment_slots w)"
    by (simp add: update_slots_def)
  then show thesis using that by (rule imageE)
qed





section \<open>createBooking: failure and rollback\<close>

lemma cancelled_tables:
  "doctors (cancelled now bookingId booking s) = doctors s"
  "appointment_slots (cancelled now bookingId booking s) =
     map (\<lambda>r. if s_id r = slot_id booking then r\<lparr>is_available := True, s_updated_at := now\<rparr> else r)
       (appointment_slots s)"
  "bookings (cancelled now bookingId booking s) =
     map (\<lambda>b. if b_id b = bookingId then b\<lparr>status := CANCELLED, b_updated_at := now\<rparr> else b)
       (bookings s)"
  "bookings_id_seq (cancelled now bookingId booking s) = bookings_id_seq s"
  by (simp_all add: cancelled_def update_slots_def cancel_booking_row_def)

lemma swept_tables:
  "doctors (swept now T s) = doctors s"
  "bookings (swept now T s) =
     map (\<lambda>b. if stale now T b
               then b\<lparr>status := FAILED, failed_at := Some now,
                      failure_reason := Some (timeout_reason T), b_updated_at := now\<rparr>
               else b)
       (bookings s)"
  "appointment_slots (swept now T s) =
     (if filter (stale now T) (bookings s) = [] then appointment_slots s
      else map (\<lambda>r. if s_id r \<in> slot_id ` set (filter (stale now T) (bookings s))
                     then r\<lparr>is_available := True, s_updated_at := now\<rparr> else r)
             (appointment_slots s))"
  "bookings_id_seq (swept now T s) = bookings_id_seq s"
  by (simp_all add: swept_def expire_bookings_def update_slots_def)

lemma alice_booked_eq: "alice_booked = booked 5 1 ''Alice'' ''alice@example.com'' None clinic"
  unfolding alice_booked_def
  by (simp add: createBooking_no_faults select_slot_clinic slotDateTime_def too_long_def)
     (simp add: clinic_def)

lemma alice_booked_tables:
  "map status (bookings alice_booked) = [CONFIRMED]"
  "map b_id (bookings alice_booked) = [1]"
  "map slot_id (bookings alice_booked) = [1]"
  "map is_available (appointment_slots alice_booked) = [False, True]"
  "map s_id (appointment_slots alice_booked) = [1, 2]"
  "map slotDateTime (appointment_slots alice_booked) = [1728036000000, 1728037800000]"
  "bookings_id_seq alice_booked = 2"
  by (simp_all add: alice_booked_eq booked_tables too_long_def new_booking_def slotDateTime_def
        clinic_def)

text \<open>
  A call that fails while the final \<^verbatim>\<open>getBookingById\<close> is not rejected has changed no table:
  each earlier failure is followed by the \<^verbatim>\<open>ROLLBACK\<close> of the \<^verbatim>\<open>catch\<close> block.
\<close>

lemma createBooking_rolls_back:
  assumes "createBooking fl clock now slotId pn pe pp s = (Inl e, s')"
    and "fl FetchBooking = None"
  shows "doctors s' = doctors s \<and> appointment_slots s' = appointment_slots s \<and>
         bookings s' = bookings s"
  using createBooking_outcome[OF assms(1)] assms(2) by auto

text \<open>
  Claim C2 asks that every failing \<^verbatim>\<open>createBooking\<close> leave the slots and the reservations as
  they were. The source fetches the booking after \<^verbatim>\<open>COMMIT\<close>, still inside the \<^verbatim>\<open>try\<close> block:
  when that read is rejected the \<^verbatim>\<open>catch\<close> block's \<^verbatim>\<open>ROLLBACK\<close> finds no transaction, the call
  throws, and the booking stays committed. On the example clinic, with the pool refusing the
  second connection: the call fails, Alice's reservation is \<^verbatim>\<open>CONFIRMED\<close> and slot 1 is taken.
\<close>

theorem createBooking_fails_after_commit:
  "createBooking fetch_fails 0 5 1 ''Alice'' ''alice@example.com'' None clinic =
     (Inl pool_timeout, alice_booked) \<and>
   bookings clinic = [] \<and> map status (bookings alice_booked) = [CONFIRMED] \<and>
   map is_available (appointment_slots clinic) = [True, True] \<and>
   map is_available (appointment_slots alice_booked) = [False, True]"
proof -
  have "createBooking fetch_fails 0 5 1 ''Alice'' ''alice@example.com'' None clinic =
     (Inl pool_timeout, booked 5 1 ''Alice'' ''alice@example.com'' None clinic)"
    by (simp add: createBooking_def createBooking_try_def createBooking_catch_def
          fetch_fails_def no_faults_def BEGIN_connect select_slot_clinic slotDateTime_def
          insert_booking_def too_long_def Let_def ROLLBACK_def booked_def pool_timeout_def
          new_booking_def)
       (simp add: clinic_def)
  then show ?thesis
    by (simp add: alice_booked_tables alice_booked_eq[symmetric]) (simp add: clinic_def)
qed

section \<open>Facts about the example data\<close>

lemma stuck_rows:
  "bookings stuck_clinic =
      [new_booking 0 1 1 ''Alice'' ''alice@example.com'' None,
       new_booking 170000000 2 2 ''Bob'' ''bob@example.com'' None]"
  by (simp add: stuck_clinic_def)

lemma stuck_stale:
  "stale 180000000 2 (new_booking 0 1 1 ''Alice'' ''alice@example.com'' None)"
  "\<not> stale 180000000 2 (new_booking 170000000 2 2 ''Bob'' ''bob@example.com'' None)"
  by (simp_all add: stale_def new_booking_def)

lemma alice_failed_eq: "alice_failed = swept 180000000 2 stuck_clinic"
  by (simp add: alice_failed_def expirePendingBookings_no_faults)

lemma alice_failed_tables:
  "map b_id (bookings alice_failed) = [1, 2]"
  "map slot_id (bookings alice_failed) = [1, 2]"
  "map status (bookings alice_failed) = [FAILED, PENDING]"
  "map s_id (appointment_slots alice_failed) = [1, 2]"
  "map is_available (appointment_slots alice_failed) = [True, False]"
  "map slotDateTime (appointment_slots alice_failed) = [1728036000000, 1728037800000]"
  "bookings_id_seq alice_failed = 3"
  unfolding alice_failed_eq swept_tables stuck_rows
  by (simp_all add: stuck_stale)
     (simp_all add: new_booking_def stuck_clinic_def clinic_def slotDateTime_def)

lemma select_slot_heads:
  assumes "map s_id (appointment_slots s) = k # ks" and "map is_available (appointment_slots s) = a # as"
    and "map slotDateTime (appointment_slots s) = t # ts"
  shows "\<exists>slot rest. select_slot k s = slot # rest \<and> is_available slot = a \<and> slotDateTime slot = t"
proof (cases "appointment_slots s")
  case Nil
  then show ?thesis using assms by simp
next
  case (Cons slot more)
  then show ?thesis using assms by (simp add: select_slot_def)
qed

lemma carol_booked_eq:
  "carol_booked = booked 200000000 1 ''Carol'' ''carol@example.com'' None alice_failed"
proof -
  obtain slot rest where "select_slot 1 alice_failed = slot # rest" "is_available slot"
    "slotDateTime slot = 1728036000000"
    using select_slot_heads[OF alice_failed_tables(4,5,6)] by auto
  moreover have "bookings_id_seq alice_failed \<notin> b_id ` set (bookings alice_failed)"
    using alice_failed_tables(1,7) by (simp flip: set_map)
  ultimately show ?thesis
    by (simp add: carol_booked_def createBooking_no_faults too_long_def alice_failed_tables(7))
qed

lemma carol_booked_tables:
  "map b_id (bookings carol_booked) = [1, 2, 3]"
  "map slot_id (bookings carol_booked) = [1, 2, 1]"
  "map status (bookings carol_booked) = [FAILED, PENDING, CONFIRMED]"
  "map s_id (appointment_slots carol_booked) = [1, 2]"
  "map is_available (appointment_slots carol_booked) = [False, False]"
proof -
  have fresh: "\<not> too_long ''Carol'' ''carol@example.com'' None"
    "bookings_id_seq alice_failed \<notin> b_id ` set (bookings alice_failed)"
    using alice_failed_tables(1,7) by (simp_all add: too_long_def flip: set_map)
  have slots: "appointment_slots alice_failed =
      [(appointment_slots alice_failed ! 0), (appointment_slots alice_failed ! 1)]"
    using alice_failed_tables(4) by (cases "appointment_slots alice_failed"; simp; 
        cases "tl (appointment_slots alice_failed)"; auto)
  show "map b_id (bookings carol_booked) = [1, 2, 3]"
    "map slot_id (bookings carol_booked) = [1, 2, 1]"
    "map status (bookings carol_booked) = [FAILED, PENDING, CONFIRMED]"
    unfolding carol_booked_eq booked_tables(3)[OF fresh]
    by (simp_all add: alice_failed_tables new_booking_def)
  have ids: "map s_id (map (\<lambda>r. if s_id r = k then r\<lparr>is_available := v, s_updated_at := u\<rparr> else r) xs)
      = map s_id xs" for k v u and xs :: "slot list"
    by (induction xs) simp_all
  show "map s_id (appointment_slots carol_booked) = [1, 2]"
    unfolding carol_booked_eq booked_tables(2)[OF fresh] ids by (rule alice_failed_tables(4))
  have "map s_id [appointment_slots alice_failed ! 0, appointment_slots alice_failed ! 1] = [1, 2]"
    "map is_available [appointment_slots alice_failed ! 0, appointment_slots alice_failed ! 1]
       = [True, False]"
    using alice_failed_tables(4,5) slots by simp_all
  then show "map is_available (appointment_slots carol_booked) = [False, False]"
    unfolding carol_booked_eq booked_tables(2)[OF fresh]
    by (subst slots) simp
qed

section \<open>expirePendingBookings: the sweep\<close>

lemma released_slot_row:
  assumes "slot \<in> set (appointment_slots (swept now T s))"
    and "b \<in> set (bookings s)" and "stale now T b" and "s_id slot = slot_id b"
  shows "is_available slot"
proof -
  let ?ids = "slot_id ` set (filter (stale now T) (bookings s))"
  from assms(2,3) have ne: "filter (stale now T) (bookings s) \<noteq> []"
    by (auto simp: filter_empty_conv)
  from assms(2,3) have mem: "slot_id b \<in> ?ids" by auto
  from assms(1) have "slot \<in>
      (\<lambda>r. if s_id r \<in> ?ids then r\<lparr>is_available := True, s_updated_at := now\<rparr> else r) `
      set (appointment_slots s)"
    using ne by (simp add: swept_tables(3))
  then obtain r where
    r: "slot = (if s_id r \<in> ?ids then r\<lparr>is_available := True, s_updated_at := now\<rparr> else r)"
    by (rule imageE)
  show ?thesis
  proof (cases "s_id r \<in> ?ids")
    case True
    then show ?thesis using r by simp
  next
    case False
    then have "slot = r" using r by simp
    then show ?thesis using False mem assms(4) by simp
  qed
qed

text \<open>
  Claim C5. The creation timestamp the sweep reads is \<^verbatim>\<open>booking_time\<close>. After one call that
  returns: every row that was \<^verbatim>\<open>PENDING\<close> with \<^verbatim>\<open>booking_time\<close> before \<open>now\<close> minus the timeout
  is that row with status \<^verbatim>\<open>FAILED\<close>, \<^verbatim>\<open>failed_at\<close> stamped and the timeout as its failure
  reason (in the source's wording, \<^verbatim>\<open>Booking timeout - not confirmed within N minutes\<close>), and
  every slot row it references is available; every other row is as it was; the count
  returned is the number of rows failed. A call that throws has rolled back: the sweep's
  writes are committed together or not at all. When the store rejects nothing the call returns.
\<close>

theorem expirePendingBookings_reclaims:
  assumes "expirePendingBookings fl now T s = (r, s')"
  shows "(fl = no_faults \<longrightarrow> \<not> isl r) \<and>
         (isl r \<longrightarrow> bookings s' = bookings s \<and> appointment_slots s' = appointment_slots s) \<and>
         (\<forall>res. r = Inr res \<longrightarrow>
            expired res =
              length (filter (\<lambda>b. status b = PENDING \<and> booking_time b < now - T * 60000000)
                        (bookings s)) \<and>
            length (bookings s') = length (bookings s) \<and>
            (\<forall>i<length (bookings s).
               if status (bookings s ! i) = PENDING \<and>
                  booking_time (bookings s ! i) < now - T * 60000000
               then bookings s' ! i =
                      (bookings s ! i)\<lparr>status := FAILED, failed_at := Some now,
                         failure_reason := Some (timeout_reason T), b_updated_at := now\<rparr> \<and>
                    (\<forall>slot\<in>set (appointment_slots s').
                        s_id slot = slot_id (bookings s ! i) \<longrightarrow> is_available slot)
               else bookings s' ! i = bookings s ! i))"
proof -
  have stale_eq: "stale now T = (\<lambda>b. status b = PENDING \<and> booking_time b < now - T * 60000000)"
    by (rule ext) (simp add: stale_def)
  have total: "fl = no_faults \<longrightarrow> \<not> isl r"
    using assms by (auto simp: expirePendingBookings_no_faults)
  from expirePendingBookings_outcome[OF assms]
  show ?thesis
  proof
    assume "isl r \<and> doctors s' = doctors s \<and> appointment_slots s' = appointment_slots s \<and>
      bookings s' = bookings s"
    then have "isl r" and "bookings s' = bookings s \<and> appointment_slots s' = appointment_slots s"
      by simp_all
    moreover from \<open>isl r\<close> have "\<forall>res. r \<noteq> Inr res" by (cases r) simp_all
    ultimately show ?thesis using total by simp
  next
    assume ok: "s' = swept now T s \<and>
      r = Inr \<lparr>expired = length (filter (stale now T) (bookings s)),
               expire_message = ''Expired '' @
                 toString_nat (length (filter (stale now T) (bookings s))) @
                 '' pending bookings''\<rparr>"
    then have s': "s' = swept now T s" and nl: "\<not> isl r"
      and cnt: "\<forall>res. r = Inr res \<longrightarrow>
        expired res = length (filter (stale now T) (bookings s))"
      by simp_all
    have len: "length (bookings s') = length (bookings s)"
      by (simp add: s' swept_tables)
    have rows: "if stale now T (bookings s ! i)
        then bookings s' ! i =
               (bookings s ! i)\<lparr>status := FAILED, failed_at := Some now,
                  failure_reason := Some (timeout_reason T), b_updated_at := now\<rparr> \<and>
             (\<forall>slot\<in>set (appointment_slots s').
                 s_id slot = slot_id (bookings s ! i) \<longrightarrow> is_available slot)
        else bookings s' ! i = bookings s ! i" if i: "i < length (bookings s)" for i
    proof (cases "stale now T (bookings s ! i)")
      case True
      have "bookings s ! i \<in> set (bookings s)" using i by simp
      then have "\<forall>slot\<in>set (appointment_slots s').
          s_id slot = slot_id (bookings s ! i) \<longrightarrow> is_available slot"
        using released_slot_row[of _ now T s "bookings s ! i"] True s' by blast
      then show ?thesis using True i by (simp add: s' swept_tables)
    next
      case False
      then show ?thesis using i by (simp add: s' swept_tables)
    qed
    show ?thesis
      using total nl cnt len rows unfolding stale_eq by simp
  qed
qed

text \<open>The sweep of the stuck clinic at 180 seconds fails Alice's row, frees slot 1 and leaves
  Bob's row, 10 seconds old, untouched.\<close>

theorem expirePendingBookings_reclaims_witness:
  "status (bookings alice_failed ! 0) = FAILED \<and>
   failure_reason (bookings alice_failed ! 0) =
     Some ''Booking timeout - not confirmed within 2 minutes'' \<and>
   failed_at (bookings alice_failed ! 0) = Some 180000000 \<and>
   s_id (appointment_slots alice_failed ! 0) = 1 \<and>
   is_available (appointment_slots alice_failed ! 0) \<and>
   bookings alice_failed ! 1 = new_booking 170000000 2 2 ''Bob'' ''bob@example.com'' None \<and>
   fst (expirePendingBookings no_faults 180000000 2 stuck_clinic) =
     Inr \<lparr>expired = 1, expire_message = ''Expired 1 pending bookings''\<rparr>"
proof -
  let ?res = "\<lparr>expired = 1, expire_message = ''Expired 1 pending bookings''\<rparr>"
  have run: "expirePendingBookings no_faults 180000000 2 stuck_clinic = (Inr ?res, alice_failed)"
    by (simp add: alice_failed_def expirePendingBookings_no_faults stuck_rows stuck_stale
          toString_nat.simps)
  have why: "timeout_reason 2 = ''Booking timeout - not confirmed within 2 minutes''"
    by (simp add: timeout_reason_def toString_int_def toString_nat.simps)
  from expirePendingBookings_reclaims[OF run]
  have all: "\<forall>i<length (bookings stuck_clinic).
       if status (bookings stuck_clinic ! i) = PENDING \<and>
          booking_time (bookings stuck_clinic ! i) < 180000000 - 2 * 60000000
       then bookings alice_failed ! i =
              (bookings stuck_clinic ! i)\<lparr>status := FAILED, failed_at := Some 180000000,
                 failure_reason := Some (timeout_reason 2), b_updated_at := 180000000\<rparr> \<and>
            (\<forall>slot\<in>set (appointment_slots alice_failed).
                s_id slot = slot_id (bookings stuck_clinic ! i) \<longrightarrow> is_available slot)
       else bookings alice_failed ! i = bookings stuck_clinic ! i"
    by blast
  from all[rule_format, of 0]
  have a: "bookings alice_failed ! 0 =
      (new_booking 0 1 1 ''Alice'' ''alice@example.com'' None)\<lparr>status := FAILED,
         failed_at := Some 180000000, failure_reason := Some (timeout_reason 2),
         b_updated_at := 180000000\<rparr>"
    and sl: "\<forall>slot\<in>set (appointment_slots alice_failed). s_id slot = 1 \<longrightarrow> is_available slot"
    by (simp_all add: stuck_rows new_booking_def)
  from all[rule_format, of 1]
  have b: "bookings alice_failed ! 1 = new_booking 170000000 2 2 ''Bob'' ''bob@example.com'' None"
    by (simp add: stuck_rows new_booking_def)
  obtain x y where slots: "appointment_slots alice_failed = [x, y]"
    using alice_failed_tables(4) by (auto simp: map_eq_Cons_conv)
  then have "s_id x = 1" using alice_failed_tables(4) by simp
  then have c: "s_id (appointment_slots alice_failed ! 0) = 1"
      "is_available (appointment_slots alice_failed ! 0)"
    using sl slots by simp_all
  show ?thesis using a b c run why by simp
qed

section \<open>expirePendingBookings: running it again\<close>

lemma map_if_none:
  "\<forall>x\<in>set xs. \<not> P x \<Longrightarrow> map (\<lambda>x. if P x then f x else x) xs = xs"
  by (induction xs) simp_all

lemma swept_nothing:
  assumes "filter (stale now T) (bookings w) = []"
  shows "swept now T w = w"
proof -
  from assms have "\<forall>b\<in>set (bookings w). \<not> stale now T b"
    by (simp add: filter_empty_conv)
  then show ?thesis
    using assms by (simp add: swept_def expire_bookings_def map_if_none)
qed

lemma failed_row_not_stale:
  "\<not> stale now2 T2 (b\<lparr>status := FAILED, failed_at := t, failure_reason := why, b_updated_at := u\<rparr>)"
  by (simp add: stale_def)

lemma swept_leaves_no_stale:
  assumes "\<forall>b\<in>set (bookings s). stale now2 T2 b \<longrightarrow> stale now T b"
  shows "filter (stale now2 T2) (bookings (swept now T s)) = []"
proof -
  have "\<not> stale now2 T2 b'" if "b' \<in> set (bookings (swept now T s))" for b'
  proof -
    from that have "b' \<in> (\<lambda>b. if stale now T b
               then b\<lparr>status := FAILED, failed_at := Some now,
                      failure_reason := Some (timeout_reason T), b_updated_at := now\<rparr>
               else b) ` set (bookings s)"
      by (simp add: swept_tables(2))
    then obtain b where b: "b \<in> set (bookings s)"
      and b': "b' = (if stale now T b
               then b\<lparr>status := FAILED, failed_at := Some now,
                      failure_reason := Some (timeout_reason T), b_updated_at := now\<rparr>
               else b)"
      by (rule imageE)
    show ?thesis
    proof (cases "stale now T b")
      case True
      then show ?thesis using b' by (simp add: failed_row_not_stale)
    next
      case False
      then have "b' = b" using b' by simp
      then show ?thesis using False assms b by blast
    qed
  qed
  then show ?thesis by (simp add: filter_empty_conv)
qed

text \<open>
  Claim C9. Let a sweep at \<open>now\<close> with timeout \<open>T\<close> return, and let a second sweep run at
  \<open>now2\<close> with timeout \<open>T2\<close> such that no row has become stale in between: every row the
  second run would select was already selected by the first. Then, the store rejecting
  nothing, the second run returns a count of zero and leaves the database exactly as the
  first run left it. Running the same sweep twice at the same instant is the special case.
\<close>

theorem expirePendingBookings_idempotent:
  assumes "expirePendingBookings fl now T s = (Inr r1, s1)"
    and "\<forall>b\<in>set (bookings s). stale now2 T2 b \<longrightarrow> stale now T b"
  shows "expirePendingBookings no_faults now2 T2 s1 =
           (Inr \<lparr>expired = 0, expire_message = ''Expired 0 pending bookings''\<rparr>, s1)"
proof -
  from expirePendingBookings_outcome[OF assms(1)] have s1: "s1 = swept now T s"
    by simp
  have none: "filter (stale now2 T2) (bookings s1) = []"
    unfolding s1 by (rule swept_leaves_no_stale[OF assms(2)])
  have zero: "toString_nat 0 = ''0''"
    by (simp add: toString_nat.simps)
  show ?thesis
    by (simp add: expirePendingBookings_no_faults none swept_nothing zero)
qed

text \<open>On the stuck clinic: a second sweep five seconds after the first, and one at the same
  instant.\<close>

theorem expirePendingBookings_idempotent_witness:
  "expirePendingBookings no_faults 185000000 2 alice_failed =
     (Inr \<lparr>expired = 0, expire_message = ''Expired 0 pending bookings''\<rparr>, alice_failed) \<and>
   expirePendingBookings no_faults 180000000 2 alice_failed =
     (Inr \<lparr>expired = 0, expire_message = ''Expired 0 pending bookings''\<rparr>, alice_failed) \<and>
   map status (bookings alice_failed) = [FAILED, PENDING]"
proof -
  let ?res = "\<lparr>expired = 1, expire_message = ''Expired 1 pending bookings''\<rparr>"
  have rows: "bookings stuck_clinic =
      [new_booking 0 1 1 ''Alice'' ''alice@example.com'' None,
       new_booking 170000000 2 2 ''Bob'' ''bob@example.com'' None]"
    by (simp add: stuck_clinic_def)
  have st: "stale 180000000 2 (new_booking 0 1 1 ''Alice'' ''alice@example.com'' None)"
    "\<not> stale 180000000 2 (new_booking 170000000 2 2 ''Bob'' ''bob@example.com'' None)"
    "\<not> stale 185000000 2 (new_booking 170000000 2 2 ''Bob'' ''bob@example.com'' None)"
    by (simp_all add: stale_def new_booking_def)
  have run: "expirePendingBookings no_faults 180000000 2 stuck_clinic = (Inr ?res, alice_failed)"
    by (simp add: alice_failed_def expirePendingBookings_no_faults rows st toString_nat.simps)
  have later: "\<forall>b\<in>set (bookings stuck_clinic). stale 185000000 2 b \<longrightarrow> stale 180000000 2 b"
    by (simp add: rows st)
  have same: "\<forall>b\<in>set (bookings stuck_clinic). stale 180000000 2 b \<longrightarrow> stale 180000000 2 b"
    by simp
  have eq: "alice_failed = swept 180000000 2 stuck_clinic"
    by (simp add: alice_failed_def expirePendingBookings_no_faults)
  have "map status (bookings alice_failed) = [FAILED, PENDING]"
    unfolding eq swept_tables rows by (simp add: st) (simp add: new_booking_def)
  then show ?thesis
    using expirePendingBookings_idempotent[OF run later]
      expirePendingBookings_idempotent[OF run same] by simp
qed

section \<open>cancelBooking of a FAILED reservation\<close>

text \<open>
  Claim C10. \<^verbatim>\<open>cancelBooking\<close> rejects only a row that is already \<^verbatim>\<open>CANCELLED\<close>. For a row that
  is \<^verbatim>\<open>FAILED\<close> it succeeds, sets the status to \<^verbatim>\<open>CANCELLED\<close>, and sets the availability of the
  referenced slot to true whatever the flag was and whatever other reservations reference
  the slot.
\<close>

theorem cancelBooking_of_failed:
  assumes "select_booking bookingId s = booking # rest" and "status booking = FAILED"
    and "cancelBooking no_faults now bookingId s = (r, s')"
  shows "r = Inr \<lparr>success = True, cancel_message = ''Booking cancelled successfully''\<rparr> \<and>
         bookings s' =
           map (\<lambda>b. if b_id b = bookingId then b\<lparr>status := CANCELLED, b_updated_at := now\<rparr> else b)
             (bookings s) \<and>
         appointment_slots s' =
           map (\<lambda>slot. if s_id slot = slot_id booking
                        then slot\<lparr>is_available := True, s_updated_at := now\<rparr> else slot)
             (appointment_slots s)"
proof -
  from assms have "r = Inr \<lparr>success = True, cancel_message = ''Booking cancelled successfully''\<rparr>"
    and "s' = cancelled now bookingId booking s"
    by (auto simp: cancelBooking_no_faults)
  then show ?thesis by (simp add: cancelled_tables)
qed

text \<open>Alice's reservation has been failed by the sweep and Carol has since booked slot 1.
  Cancelling Alice's reservation succeeds and frees slot 1 under Carol's \<^verbatim>\<open>CONFIRMED\<close>
  reservation.\<close>

theorem cancelBooking_of_failed_witness:
  "map status (bookings carol_booked) = [FAILED, PENDING, CONFIRMED] \<and>
   map slot_id (bookings carol_booked) = [1, 2, 1] \<and>
   map is_available (appointment_slots carol_booked) = [False, False] \<and>
   fst (cancelBooking no_faults 210000000 1 carol_booked) =
     Inr \<lparr>success = True, cancel_message = ''Booking cancelled successfully''\<rparr> \<and>
   map status (bookings (snd (cancelBooking no_faults 210000000 1 carol_booked))) =
     [CANCELLED, PENDING, CONFIRMED] \<and>
   map is_available (appointment_slots (snd (cancelBooking no_faults 210000000 1 carol_booked))) =
     [True, False]"
proof -
  obtain a b c where rows: "bookings carol_booked = [a, b, c]"
    using carol_booked_tables(1) by (auto simp: map_eq_Cons_conv)
  then have cols: "b_id a = 1" "b_id b = 2" "b_id c = 3" "slot_id a = 1"
    "status a = FAILED" "status b = PENDING" "status c = CONFIRMED"
    using carol_booked_tables(1,2,3) by simp_all
  obtain x y where slots: "appointment_slots carol_booked = [x, y]"
    using carol_booked_tables(4) by (auto simp: map_eq_Cons_conv)
  then have scols: "s_id x = 1" "s_id y = 2" "\<not> is_available y"
    using carol_booked_tables(4,5) by simp_all
  have sel: "select_booking 1 carol_booked = a # []"
    by (simp add: select_booking_def rows cols)
  obtain r s' where run: "cancelBooking no_faults 210000000 1 carol_booked = (r, s')"
    by (cases "cancelBooking no_faults 210000000 1 carol_booked")
  from cancelBooking_of_failed[OF sel cols(5) run]
  have "r = Inr \<lparr>success = True, cancel_message = ''Booking cancelled successfully''\<rparr>"
    and "map status (bookings s') = [CANCELLED, PENDING, CONFIRMED]"
    and "map is_available (appointment_slots s') = [True, False]"
    by (simp_all add: rows cols slots scols)
  then show ?thesis
    using run carol_booked_tables by simp
qed

section \<open>cancelBooking\<close>



lemma select_slot_id: "select_slot k s = slot # others \<Longrightarrow> s_id slot = k"
proof -
  assume "select_slot k s = slot # others"
  then have "slot \<in> set (filter (\<lambda>r. s_id r = k) (appointment_slots s))"
    by (simp add: select_slot_def)
  then show ?thesis by simp
qed









section \<open>The slot invariant\<close>


























section \<open>Status transitions\<close>

lemma taken_edge_cancel: "st \<noteq> CANCELLED \<Longrightarrow> taken_edge st CANCELLED"
  by (cases st) (simp_all add: taken_edge_def)

lemma taken_edge_not_pending: "taken_edge a b \<Longrightarrow> b \<noteq> PENDING"
  by (cases a; cases b) (simp_all add: taken_edge_def)

lemma taken_path_not_pending:
  "taken_edge\<^sup>*\<^sup>* a b \<Longrightarrow> b = PENDING \<Longrightarrow> a = PENDING"
  by (induction rule: rtranclp_induct) (auto dest: taken_edge_not_pending)

lemma rows_in_place:
  assumes "length (bookings s') = length (bookings s)"
    and "\<And>i. i < length (bookings s) \<Longrightarrow> b_id (bookings s' ! i) = b_id (bookings s ! i)"
    and "\<And>i. i < length (bookings s) \<Longrightarrow>
           status (bookings s' ! i) = status (bookings s ! i) \<or>
           taken_edge (status (bookings s ! i)) (status (bookings s' ! i))"
  shows "length (bookings s) \<le> length (bookings s') \<and>
         (\<forall>i<length (bookings s).
            b_id (bookings s' ! i) = b_id (bookings s ! i) \<and>
            (status (bookings s' ! i) = status (bookings s ! i) \<or>
             taken_edge (status (bookings s ! i)) (status (bookings s' ! i)))) \<and>
         (\<forall>i. length (bookings s) \<le> i \<and> i < length (bookings s') \<longrightarrow>
            status (bookings s' ! i) = CONFIRMED)"
proof (intro conjI allI impI)
  show "length (bookings s) \<le> length (bookings s')" by (simp add: assms(1))
next
  fix i assume "i < length (bookings s)"
  then show "b_id (bookings s' ! i) = b_id (bookings s ! i)" by (rule assms(2))
next
  fix i assume "i < length (bookings s)"
  then show "status (bookings s' ! i) = status (bookings s ! i) \<or>
      taken_edge (status (bookings s ! i)) (status (bookings s' ! i))" by (rule assms(3))
next
  fix i assume "length (bookings s) \<le> i \<and> i < length (bookings s')"
  then have False using assms(1) by auto
  then show "status (bookings s' ! i) = CONFIRMED" ..
qed

lemma rows_untouched:
  assumes "bookings s' = bookings s"
  shows "length (bookings s) \<le> length (bookings s') \<and>
         (\<forall>i<length (bookings s).
            b_id (bookings s' ! i) = b_id (bookings s ! i) \<and>
            (status (bookings s' ! i) = status (bookings s ! i) \<or>
             taken_edge (status (bookings s ! i)) (status (bookings s' ! i)))) \<and>
         (\<forall>i. length (bookings s) \<le> i \<and> i < length (bookings s') \<longrightarrow>
            status (bookings s' ! i) = CONFIRMED)"
  by (rule rows_in_place) (simp_all add: assms)

lemma step_rows:
  assumes "op_step s s'"
  shows "length (bookings s) \<le> length (bookings s') \<and>
         (\<forall>i<length (bookings s).
            b_id (bookings s' ! i) = b_id (bookings s ! i) \<and>
            (status (bookings s' ! i) = status (bookings s ! i) \<or>
             taken_edge (status (bookings s ! i)) (status (bookings s' ! i)))) \<and>
         (\<forall>i. length (bookings s) \<le> i \<and> i < length (bookings s') \<longrightarrow>
            status (bookings s' ! i) = CONFIRMED)"
  using assms
proof (cases rule: op_step.cases)
  case (create fl clock now slotId pn pe pp)
  obtain r where run: "createBooking fl clock now slotId pn pe pp s = (r, s')"
    using create by (cases "createBooking fl clock now slotId pn pe pp s") simp
  from createBooking_outcome[OF run] show ?thesis
  proof
    assume "isl r \<and> doctors s' = doctors s \<and> appointment_slots s' = appointment_slots s \<and>
      bookings s' = bookings s"
    then have "bookings s' = bookings s" by (elim conjE)
    then show ?thesis by (rule rows_untouched)
  next
    assume a: "admitted clock slotId pn pe pp s \<and> s' = booked now slotId pn pe pp s \<and>
      (case fl FetchBooking of None \<Rightarrow> r = Inr (getBookingById s' (bookings_id_seq s))
       | Some e \<Rightarrow> isl r)"
    then have fresh: "\<not> too_long pn pe pp" "bookings_id_seq s \<notin> b_id ` set (bookings s)"
      by (simp_all add: admitted_def)
    from a have rows: "bookings s' = bookings s @
        [(new_booking now (bookings_id_seq s) slotId pn pe pp)
           \<lparr>status := CONFIRMED, confirmed_at := Some now, b_updated_at := now\<rparr>]"
      by (simp add: booked_tables(3)[OF fresh])
    show ?thesis
    proof (intro conjI allI impI)
      show "length (bookings s) \<le> length (bookings s')" by (simp add: rows)
    next
      fix i assume "i < length (bookings s)"
      then show "b_id (bookings s' ! i) = b_id (bookings s ! i)" by (simp add: rows nth_append)
    next
      fix i assume "i < length (bookings s)"
      then show "status (bookings s' ! i) = status (bookings s ! i) \<or>
          taken_edge (status (bookings s ! i)) (status (bookings s' ! i))"
        by (simp add: rows nth_append)
    next
      fix i assume "length (bookings s) \<le> i \<and> i < length (bookings s')"
      then have "i = length (bookings s)" by (auto simp: rows)
      then show "status (bookings s' ! i) = CONFIRMED" by (simp add: rows)
    qed
  qed
next
  case (cancel fl now bookingId)
  obtain r where run: "cancelBooking fl now bookingId s = (r, s')"
    using cancel by (cases "cancelBooking fl now bookingId s") simp
  from cancelBooking_outcome[OF run] show ?thesis
  proof
    assume "isl r \<and> doctors s' = doctors s \<and> appointment_slots s' = appointment_slots s \<and>
      bookings s' = bookings s"
    then have "bookings s' = bookings s" by (elim conjE)
    then show ?thesis by (rule rows_untouched)
  next
    assume "\<exists>booking rest. select_booking bookingId s = booking # rest \<and>
      status booking \<noteq> CANCELLED \<and> s' = cancelled now bookingId booking s \<and>
      r = Inr \<lparr>success = True, cancel_message = ''Booking cancelled successfully''\<rparr>"
    then obtain booking where s': "s' = cancelled now bookingId booking s" by blast
    have rows: "bookings s' =
        map (\<lambda>b. if b_id b = bookingId then b\<lparr>status := CANCELLED, b_updated_at := now\<rparr> else b)
          (bookings s)"
      by (simp add: s' cancelled_tables)
    have "status (bookings s' ! i) = status (bookings s ! i) \<or>
        taken_edge (status (bookings s ! i)) (status (bookings s' ! i))"
      if "i < length (bookings s)" for i
    proof (cases "b_id (bookings s ! i) = bookingId")
      case True
      then have "status (bookings s' ! i) = CANCELLED" using that by (simp add: rows)
      then show ?thesis
        by (cases "status (bookings s ! i) = CANCELLED") (simp_all add: taken_edge_cancel)
    next
      case False
      then show ?thesis using that by (simp add: rows)
    qed
    moreover have "b_id (bookings s' ! i) = b_id (bookings s ! i)"
      if "i < length (bookings s)" for i
      using that by (simp add: rows)
    moreover have "length (bookings s') = length (bookings s)" by (simp add: rows)
    ultimately show ?thesis by (intro rows_in_place)
  qed
next
  case (sweep fl now T)
  obtain r where run: "expirePendingBookings fl now T s = (r, s')"
    using sweep by (cases "expirePendingBookings fl now T s") simp
  from expirePendingBookings_outcome[OF run] show ?thesis
  proof
    assume "isl r \<and> doctors s' = doctors s \<and> appointment_slots s' = appointment_slots s \<and>
      bookings s' = bookings s"
    then have "bookings s' = bookings s" by (elim conjE)
    then show ?thesis by (rule rows_untouched)
  next
    assume "s' = swept now T s \<and>
      r = Inr \<lparr>expired = length (filter (stale now T) (bookings s)),
               expire_message = ''Expired '' @
                 toString_nat (length (filter (stale now T) (bookings s))) @
                 '' pending bookings''\<rparr>"
    then have rows: "bookings s' =
        map (\<lambda>b. if stale now T b
               then b\<lparr>status := FAILED, failed_at := Some now,
                      failure_reason := Some (timeout_reason T), b_updated_at := now\<rparr>
               else b) (bookings s)"
      by (simp add: swept_tables)
    have "status (bookings s' ! i) = status (bookings s ! i) \<or>
        taken_edge (status (bookings s ! i)) (status (bookings s' ! i))"
      if "i < length (bookings s)" for i
    proof (cases "stale now T (bookings s ! i)")
      case True
      then have "status (bookings s ! i) = PENDING" by (simp add: stale_def)
      moreover have "status (bookings s' ! i) = FAILED" using that True by (simp add: rows)
      ultimately show ?thesis by (simp add: taken_edge_def)
    next
      case False
      then show ?thesis using that by (simp add: rows)
    qed
    moreover have "b_id (bookings s' ! i) = b_id (bookings s ! i)"
      if "i < length (bookings s)" for i
      using that by (simp add: rows)
    moreover have "length (bookings s') = length (bookings s)" by (simp add: rows)
    ultimately show ?thesis by (intro rows_in_place)
  qed
qed

lemma steps_rows:
  assumes "op_step\<^sup>*\<^sup>* s s'" and "i < length (bookings s)"
  shows "i < length (bookings s') \<and> b_id (bookings s' ! i) = b_id (bookings s ! i) \<and>
         taken_edge\<^sup>*\<^sup>* (status (bookings s ! i)) (status (bookings s' ! i))"
  using assms(1)
proof (induction rule: rtranclp_induct)
  case base
  then show ?case using assms(2) by simp
next
  case (step t u)
  then have i: "i < length (bookings t)" by simp
  from step_rows[OF step.hyps(2)] i
  have "i < length (bookings u)" "b_id (bookings u ! i) = b_id (bookings t ! i)"
    and "status (bookings u ! i) = status (bookings t ! i) \<or>
      taken_edge (status (bookings t ! i)) (status (bookings u ! i))"
    by auto
  with step.IH show ?case by (metis rtranclp.rtrancl_into_rtrancl)
qed

lemma alice_failed_cancel:
  "fst (cancelBooking no_faults 200000000 1 alice_failed) =
     Inr \<lparr>success = True, cancel_message = ''Booking cancelled successfully''\<rparr>"
  "map status (bookings (snd (cancelBooking no_faults 200000000 1 alice_failed))) =
     [CANCELLED, PENDING]"
proof -
  obtain a b where rows: "bookings alice_failed = [a, b]"
    using alice_failed_tables(1) by (auto simp: map_eq_Cons_conv)
  then have cols: "b_id a = 1" "b_id b = 2" "status a = FAILED" "status b = PENDING"
    using alice_failed_tables(1,3) by simp_all
  have sel: "select_booking 1 alice_failed = [a]"
    by (simp add: select_booking_def rows cols)
  show "fst (cancelBooking no_faults 200000000 1 alice_failed) =
     Inr \<lparr>success = True, cancel_message = ''Booking cancelled successfully''\<rparr>"
    by (simp add: cancelBooking_no_faults sel cols)
  show "map status (bookings (snd (cancelBooking no_faults 200000000 1 alice_failed))) =
     [CANCELLED, PENDING]"
    by (simp add: cancelBooking_no_faults sel cols cancelled_tables rows)
qed

text \<open>
  Claim C8 as stated allows no transition out of \<^verbatim>\<open>FAILED\<close>. \<^verbatim>\<open>cancelBooking\<close> moves the
  reservation that the sweep has failed from \<^verbatim>\<open>FAILED\<close> to \<^verbatim>\<open>CANCELLED\<close>, which is not among
  the edges the specification lists.
\<close>

theorem cancel_moves_failed_to_cancelled:
  "map status (bookings alice_failed) = [FAILED, PENDING] \<and>
   fst (cancelBooking no_faults 200000000 1 alice_failed) =
     Inr \<lparr>success = True, cancel_message = ''Booking cancelled successfully''\<rparr> \<and>
   map status (bookings (snd (cancelBooking no_faults 200000000 1 alice_failed))) =
     [CANCELLED, PENDING] \<and>
   \<not> spec_edge FAILED CANCELLED"
  by (simp add: alice_failed_tables alice_failed_cancel)

text \<open>
  Claim C8 (amended). One operation leaves every row of the reservation table in its place
  and either keeps its status or moves it along one of the edges
  \<^verbatim>\<open>PENDING\<close> to \<^verbatim>\<open>CONFIRMED\<close>, \<^verbatim>\<open>PENDING\<close> to \<^verbatim>\<open>FAILED\<close>, \<^verbatim>\<open>CONFIRMED\<close> to \<^verbatim>\<open>CANCELLED\<close>,
  \<^verbatim>\<open>PENDING\<close> to \<^verbatim>\<open>CANCELLED\<close>, \<^verbatim>\<open>FAILED\<close> to \<^verbatim>\<open>CANCELLED\<close>; a row it adds is \<^verbatim>\<open>CONFIRMED\<close>. Over
  any sequence of operations a row's status follows a path of these edges, and a row that is
  \<^verbatim>\<open>PENDING\<close> at the end was \<^verbatim>\<open>PENDING\<close> at the start: nothing re-enters \<^verbatim>\<open>PENDING\<close>.
\<close>

theorem status_moves_along_taken_edges:
  "(op_step s s' \<longrightarrow>
      length (bookings s) \<le> length (bookings s') \<and>
      (\<forall>i<length (bookings s).
         b_id (bookings s' ! i) = b_id (bookings s ! i) \<and>
         (status (bookings s' ! i) = status (bookings s ! i) \<or>
          taken_edge (status (bookings s ! i)) (status (bookings s' ! i)))) \<and>
      (\<forall>i. length (bookings s) \<le> i \<and> i < length (bookings s') \<longrightarrow>
         status (bookings s' ! i) = CONFIRMED)) \<and>
   (op_step\<^sup>*\<^sup>* s s' \<longrightarrow>
      (\<forall>i<length (bookings s).
         i < length (bookings s') \<and> b_id (bookings s' ! i) = b_id (bookings s ! i) \<and>
         taken_edge\<^sup>*\<^sup>* (status (bookings s ! i)) (status (bookings s' ! i)) \<and>
         (status (bookings s' ! i) = PENDING \<longrightarrow> status (bookings s ! i) = PENDING)))"
proof (rule conjI; rule impI)
  assume "op_step s s'"
  then show "length (bookings s) \<le> length (bookings s') \<and>
      (\<forall>i<length (bookings s).
         b_id (bookings s' ! i) = b_id (bookings s ! i) \<and>
         (status (bookings s' ! i) = status (bookings s ! i) \<or>
          taken_edge (status (bookings s ! i)) (status (bookings s' ! i)))) \<and>
      (\<forall>i. length (bookings s) \<le> i \<and> i < length (bookings s') \<longrightarrow>
         status (bookings s' ! i) = CONFIRMED)"
    by (rule step_rows)
next
  assume steps: "op_step\<^sup>*\<^sup>* s s'"
  show "\<forall>i<length (bookings s).
         i < length (bookings s') \<and> b_id (bookings s' ! i) = b_id (bookings s ! i) \<and>
         taken_edge\<^sup>*\<^sup>* (status (bookings s ! i)) (status (bookings s' ! i)) \<and>
         (status (bookings s' ! i) = PENDING \<longrightarrow> status (bookings s ! i) = PENDING)"
  proof (intro allI impI)
    fix i assume "i < length (bookings s)"
    from steps_rows[OF steps this]
    have a: "i < length (bookings s')" "b_id (bookings s' ! i) = b_id (bookings s ! i)"
      "taken_edge\<^sup>*\<^sup>* (status (bookings s ! i)) (status (bookings s' ! i))"
      by simp_all
    from taken_path_not_pending[OF a(3)]
    have "status (bookings s' ! i) = PENDING \<longrightarrow> status (bookings s ! i) = PENDING" by simp
    with a show "i < length (bookings s') \<and> b_id (bookings s' ! i) = b_id (bookings s ! i) \<and>
         taken_edge\<^sup>*\<^sup>* (status (bookings s ! i)) (status (bookings s' ! i)) \<and>
         (status (bookings s' ! i) = PENDING \<longrightarrow> status (bookings s ! i) = PENDING)"
      by simp
  qed
qed

text \<open>Alice's reservation in the stuck clinic: failed by the sweep, then cancelled.\<close>

theorem status_moves_along_taken_edges_witness:
  "status (bookings stuck_clinic ! 0) = PENDING \<and>
   status (bookings alice_failed ! 0) = FAILED \<and>
   status (bookings (snd (cancelBooking no_faults 200000000 1 alice_failed)) ! 0) = CANCELLED \<and>
   taken_edge (status (bookings alice_failed ! 0))
     (status (bookings (snd (cancelBooking no_faults 200000000 1 alice_failed)) ! 0)) \<and>
   taken_edge\<^sup>*\<^sup>* (status (bookings stuck_clinic ! 0))
     (status (bookings (snd (cancelBooking no_faults 200000000 1 alice_failed)) ! 0))"
proof -
  let ?s' = "snd (cancelBooking no_faults 200000000 1 alice_failed)"
  have one: "op_step alice_failed ?s'" by (rule op_step.cancel)
  have "op_step stuck_clinic alice_failed"
    unfolding alice_failed_def by (rule op_step.sweep)
  then have two: "op_step\<^sup>*\<^sup>* stuck_clinic ?s'" using one by simp
  have before: "status (bookings stuck_clinic ! 0) = PENDING" "0 < length (bookings stuck_clinic)"
    by (simp_all add: stuck_rows new_booking_def)
  have "map status (bookings alice_failed) ! 0 = FAILED" by (simp add: alice_failed_tables)
  moreover have len: "0 < length (bookings alice_failed)"
    using alice_failed_tables(1) by (cases "bookings alice_failed") simp_all
  ultimately have mid: "status (bookings alice_failed ! 0) = FAILED" by simp
  have len': "0 < length (bookings ?s')"
    using alice_failed_cancel(2) by (cases "bookings ?s'") simp_all
  have "map status (bookings ?s') ! 0 = CANCELLED" by (simp add: alice_failed_cancel)
  then have after: "status (bookings ?s' ! 0) = CANCELLED" using len' by simp
  from status_moves_along_taken_edges[of alice_failed ?s'] one len
  have "status (bookings ?s' ! 0) = status (bookings alice_failed ! 0) \<or>
      taken_edge (status (bookings alice_failed ! 0)) (status (bookings ?s' ! 0))"
    by blast
  then have edge: "taken_edge (status (bookings alice_failed ! 0)) (status (bookings ?s' ! 0))"
    using mid after by simp
  from status_moves_along_taken_edges[of stuck_clinic ?s'] two before(2)
  have path: "taken_edge\<^sup>*\<^sup>* (status (bookings stuck_clinic ! 0)) (status (bookings ?s' ! 0))"
    by blast
  from before(1) mid after edge path show ?thesis by blast
qed

section \<open>Claimants of one slot, one after the other\<close>

text \<open>
  Once a call of \<^verbatim>\<open>createBooking\<close> has returned a booking for a slot, a later call for the same
  slot, whoever makes it and whenever, is refused as unavailable and changes nothing. This is
  what remains of mutual exclusion when the store admits the claimants of a slot one at a
  time.
\<close>

lemma select_slot_booked:
  assumes "\<not> too_long pn pe pp" and "bookings_id_seq s \<notin> b_id ` set (bookings s)"
  shows "select_slot k (booked now slotId pn pe pp s) =
     map (\<lambda>r. if s_id r = slotId then r\<lparr>is_available := False, s_updated_at := now\<rparr> else r)
       (select_slot k s)"
proof -
  have "filter (\<lambda>r. s_id r = k)
          (map (\<lambda>r. if s_id r = slotId then r\<lparr>is_available := False, s_updated_at := now\<rparr> else r) xs)
      = map (\<lambda>r. if s_id r = slotId then r\<lparr>is_available := False, s_updated_at := now\<rparr> else r)
          (filter (\<lambda>r. s_id r = k) xs)" for xs
    by (induction xs) simp_all
  then show ?thesis
    by (simp add: select_slot_def booked_tables(2)[OF assms])
qed

lemma second_claimant_refused:
  assumes "createBooking fl clock now slotId pn pe pp s = (Inr r, s')"
  shows "createBooking no_faults clock2 now2 slotId pn2 pe2 pp2 s' =
           (Inl (Error ''Slot is no longer available''), s')"
proof -
  from createBooking_outcome[OF assms]
  have adm: "admitted clock slotId pn pe pp s" and s': "s' = booked now slotId pn pe pp s"
    by auto
  from adm have fresh: "\<not> too_long pn pe pp" "bookings_id_seq s \<notin> b_id ` set (bookings s)"
    by (simp_all add: admitted_def)
  from adm obtain slot rest where sel: "select_slot slotId s = slot # rest"
    by (cases "select_slot slotId s") (simp_all add: admitted_def)
  have id: "s_id slot = slotId" by (rule select_slot_id[OF sel])
  have "select_slot slotId s' =
      slot\<lparr>is_available := False, s_updated_at := now\<rparr> #
      map (\<lambda>r. if s_id r = slotId then r\<lparr>is_available := False, s_updated_at := now\<rparr> else r) rest"
    unfolding s' by (simp add: select_slot_booked[OF fresh] sel id)
  then show ?thesis by (simp add: createBooking_no_faults)
qed

end
